theory Spec2Isabelle
  imports Main "HOL-Library.AList" "HOL-Library.Char_ord" "HOL-Library.List_Lexorder"
begin

section \<open>Values, types and exceptions\<close>

text \<open>
  The part of Python's value universe the parameters of this development range over:
  \<^verbatim>\<open>None\<close>, integers, (ASCII) strings and lists of integers. On these values
  \<^verbatim>\<open>==\<close> is structural equality.
\<close>

datatype pyval = VNone | VInt int | VStr string | VList "int list"

text \<open>
  What a type converter \<^verbatim>\<open>cls(value)\<close> can raise, as far as \<^verbatim>\<open>Parameter.convert\<close>
  tells exceptions apart: an instance of \<^verbatim>\<open>ValueError\<close>, which its \<^verbatim>\<open>except\<close> clause
  catches, or an exception of another class (given by its name), which it does not.
\<close>

datatype raised = ValueError | OtherError string

text \<open>
  The \<^verbatim>\<open>cls\<close> attribute of a parameter: the class \<^verbatim>\<open>object\<close> (no conversion), or
  a callable with its \<^verbatim>\<open>__name__\<close>.
\<close>

datatype pytype = ObjectType | ClassType string "pyval \<Rightarrow> raised + pyval"

text \<open>
  The exceptions the module lets escape. The three \<^verbatim>\<open>ValueError\<close>s it raises itself
  are kept apart by constructor and carry the values their messages are formatted from.
\<close>

datatype pyexc =
    ConvertError pyval string string
  | Raised raised
  | KeyError string
  | UnknownParameters "string list" string
  | CannotInterpret string

subsection \<open>The builtins int and str on these values\<close>

text \<open>The characters that \<^verbatim>\<open>int\<close> strips from both ends of an ASCII string.\<close>

definition is_space :: "char \<Rightarrow> bool" where
  "is_space c = (c \<in> set [CHR 0x09, CHR 0x0A, CHR 0x0B, CHR 0x0C, CHR 0x0D, CHR 0x20])"

definition is_digit :: "char \<Rightarrow> bool" where
  "is_digit c = (48 \<le> (of_char c :: nat) \<and> (of_char c :: nat) \<le> 57)"

definition digit_val :: "char \<Rightarrow> nat" where
  "digit_val c = of_char c - 48"

text \<open>The digits after a first digit; single underscores may separate digits.\<close>

fun int_digits :: "nat \<Rightarrow> string \<Rightarrow> nat option" where
  "int_digits acc [] = Some acc"
| "int_digits acc (c # cs) =
     (if is_digit c then int_digits (10 * acc + digit_val c) cs
      else if c = CHR ''_'' then
        (case cs of
           [] \<Rightarrow> None
         | d # ds \<Rightarrow> if is_digit d then int_digits (10 * acc + digit_val d) ds else None)
      else None)"

definition int_literal :: "string \<Rightarrow> int option" where
  "int_literal s =
     (let t = dropWhile is_space (rev (dropWhile is_space (rev s)));
          neg = (case t of [] \<Rightarrow> False | c # r \<Rightarrow> c = CHR ''-'');
          u = (case t of [] \<Rightarrow> [] | c # r \<Rightarrow> if c = CHR ''-'' \<or> c = CHR ''+'' then r else t)
      in case u of
           [] \<Rightarrow> None
         | c # cs \<Rightarrow>
             if is_digit c
             then map_option (\<lambda>n. if neg then - int n else int n) (int_digits (digit_val c) cs)
             else None)"

fun py_int :: "pyval \<Rightarrow> raised + pyval" where
  "py_int (VInt i) = Inr (VInt i)"
| "py_int (VStr s) = (case int_literal s of None \<Rightarrow> Inl ValueError | Some i \<Rightarrow> Inr (VInt i))"
| "py_int VNone = Inl (OtherError ''TypeError'')"
| "py_int (VList xs) = Inl (OtherError ''TypeError'')"

fun dec :: "nat \<Rightarrow> string" where
  "dec n = (if n < 10 then [''0123456789'' ! n] else dec (n div 10) @ [''0123456789'' ! (n mod 10)])"

declare dec.simps [simp del]

definition show_int :: "int \<Rightarrow> string" where
  "show_int i = (if i < 0 then CHR ''-'' # dec (nat (- i)) else dec (nat i))"

fun join_ints :: "int list \<Rightarrow> string" where
  "join_ints [] = []"
| "join_ints [i] = show_int i"
| "join_ints (i # j # js) = show_int i @ '', '' @ join_ints (j # js)"

fun py_str :: "pyval \<Rightarrow> raised + pyval" where
  "py_str (VStr s) = Inr (VStr s)"
| "py_str (VInt i) = Inr (VStr (show_int i))"
| "py_str VNone = Inr (VStr ''None'')"
| "py_str (VList xs) = Inr (VStr (''['' @ join_ints xs @ '']''))"

definition int_type :: pytype where
  "int_type = ClassType ''int'' py_int"

definition str_type :: pytype where
  "str_type = ClassType ''str'' py_str"

section \<open>Parameter\<close>

text \<open>
  An instance of \<^verbatim>\<open>Parameter\<close>. \<open>deprecated\<close> says whether the object is an instance
  of the subclass \<^verbatim>\<open>DeprecatedParameter\<close>, which adds nothing but its class.
\<close>

record Parameter =
  name :: string
  default_value :: pyval
  cls :: pytype
  description :: string
  hidden :: bool
  deprecated :: bool

datatype warning = DefaultTypeWarning string string

text \<open>
  \<^verbatim>\<open>Parameter.__init__\<close> (and \<^verbatim>\<open>DeprecatedParameter\<close>'s, which inherits it; \<open>dep\<close> is
  the class instantiated). It returns the object and the warnings logged, or the exception
  that \<^verbatim>\<open>cls(default_value)\<close> raised.
\<close>

definition Parameter_init ::
  "bool \<Rightarrow> string \<Rightarrow> pyval \<Rightarrow> pytype \<Rightarrow> string \<Rightarrow> bool \<Rightarrow> raised + (Parameter \<times> warning list)" where
  "Parameter_init dep nm dv c descr hid =
     (let self = \<lparr>name = nm, default_value = dv, cls = c, description = descr,
                  hidden = hid, deprecated = dep\<rparr>
      in case c of
           ObjectType \<Rightarrow> Inr (self, [])
         | ClassType n f \<Rightarrow>
             (case f dv of
                Inl e \<Rightarrow> Inl e
              | Inr v \<Rightarrow> if v \<noteq> dv then Inr (self, [DefaultTypeWarning nm n]) else Inr (self, [])))"

text \<open>\<^verbatim>\<open>Parameter.convert\<close>; \<open>v = VNone\<close> is also the call without an argument.\<close>

definition convert :: "Parameter \<Rightarrow> pyval \<Rightarrow> pyexc + pyval" where
  "convert self v =
     (let v = (if v = VNone then default_value self else v)
      in case cls self of
           ObjectType \<Rightarrow> Inr v
         | ClassType n f \<Rightarrow>
             (case f v of
                Inr w \<Rightarrow> Inr w
              | Inl ValueError \<Rightarrow> Inl (ConvertError v n (name self))
              | Inl (OtherError e) \<Rightarrow> Inl (Raised (OtherError e))))"

section \<open>Classes and the store\<close>

text \<open>
  Parameter objects live in a store and are shared by reference: the entries of a class's
  \<^verbatim>\<open>parameters_default\<close> list and the values of the dictionary that
  \<^verbatim>\<open>get_parameters\<close> returns are references to the same objects. A
  \<^verbatim>\<open>HideParameter\<close> only holds a name and is never written to.
\<close>

type_synonym addr = nat

type_synonym heap = "addr \<Rightarrow> Parameter"

datatype item = is_Ref: Ref addr | HideParameter string

text \<open>
  A class: its \<^verbatim>\<open>__name__\<close>, the \<^verbatim>\<open>parameters_default\<close> of its own class body
  (if it has one) and the rest of its \<^verbatim>\<open>__mro__\<close>, most specific first.
\<close>

datatype pyclass =
  PyClass (class_name: string) (own_parameters_default: "item list option")
    (ancestors: "pyclass list")

definition mro :: "pyclass \<Rightarrow> pyclass list" where
  "mro c = c # ancestors c"

text \<open>
  The attribute \<^verbatim>\<open>cls.parameters_default\<close>: attribute lookup on a class walks
  the class's own \<^verbatim>\<open>__mro__\<close>; \<open>None\<close> is \<^verbatim>\<open>hasattr\<close> being false.
\<close>

definition parameters_default :: "pyclass \<Rightarrow> item list option" where
  "parameters_default c =
     (case List.find (\<lambda>k. own_parameters_default k \<noteq> None) (mro c) of
        None \<Rightarrow> None
      | Some k \<Rightarrow> own_parameters_default k)"

definition object_class :: pyclass where
  "object_class = PyClass ''object'' None []"

definition Parameterized :: pyclass where
  "Parameterized = PyClass ''Parameterized'' (Some []) [object_class]"

text \<open>A class statement with a single base class.\<close>

definition class_stmt :: "string \<Rightarrow> item list option \<Rightarrow> pyclass \<Rightarrow> pyclass" where
  "class_stmt n decl base = PyClass n decl (mro base)"

section \<open>Parameterized.get_parameters\<close>

text \<open>The dictionary \<^verbatim>\<open>parameters\<close>, in insertion order.\<close>

type_synonym params = "(string \<times> addr) list"

text \<open>The body of the inner loop, for one entry \<open>p\<close> of a declared list.\<close>

fun process_item ::
  "bool \<Rightarrow> bool \<Rightarrow> item \<Rightarrow> params \<Rightarrow> heap \<Rightarrow> (pyexc + params) \<times> heap" where
  "process_item include_hidden include_deprecated (HideParameter n) ps h =
     (if include_hidden then
        (case map_of ps n of
           None \<Rightarrow> (Inl (KeyError n), h)
         | Some a \<Rightarrow> (Inr ps, h(a := (h a)\<lparr>hidden := True\<rparr>)))
      else
        (case map_of ps n of
           None \<Rightarrow> (Inl (KeyError n), h)
         | Some a \<Rightarrow> (Inr (AList.delete n ps), h)))"
| "process_item include_hidden include_deprecated (Ref a) ps h =
     (if include_deprecated \<or> \<not> deprecated (h a)
      then (Inr (AList.update (name (h a)) a ps), h)
      else (Inr ps, h))"

fun for_items ::
  "bool \<Rightarrow> bool \<Rightarrow> item list \<Rightarrow> params \<Rightarrow> heap \<Rightarrow> (pyexc + params) \<times> heap" where
  "for_items ih idep [] ps h = (Inr ps, h)"
| "for_items ih idep (p # rest) ps h =
     (case process_item ih idep p ps h of
        (Inl e, h') \<Rightarrow> (Inl e, h')
      | (Inr ps', h') \<Rightarrow> for_items ih idep rest ps' h')"

fun for_classes ::
  "bool \<Rightarrow> bool \<Rightarrow> pyclass list \<Rightarrow> params \<Rightarrow> heap \<Rightarrow> (pyexc + params) \<times> heap" where
  "for_classes ih idep [] ps h = (Inr ps, h)"
| "for_classes ih idep (k # ks) ps h =
     (case parameters_default k of
        None \<Rightarrow> for_classes ih idep ks ps h
      | Some l \<Rightarrow>
          (case for_items ih idep l ps h of
             (Inl e, h') \<Rightarrow> (Inl e, h')
           | (Inr ps', h') \<Rightarrow> for_classes ih idep ks ps' h'))"

definition get_parameters ::
  "pyclass \<Rightarrow> bool \<Rightarrow> bool \<Rightarrow> bool \<Rightarrow> heap \<Rightarrow> (pyexc + params) \<times> heap" where
  "get_parameters c include_hidden include_deprecated sort_keys h =
     (case for_classes include_hidden include_deprecated (rev (mro c)) [] h of
        (Inl e, h') \<Rightarrow> (Inl e, h')
      | (Inr ps, h') \<Rightarrow> (Inr (if sort_keys then sort_key fst ps else ps), h'))"

section \<open>Parameterized._parse_parameters and Parameterized.__init__\<close>

type_synonym pydict = "(string \<times> pyval) list"

text \<open>
  The loop over \<^verbatim>\<open>param_objs.items()\<close>: \<open>ov\<close> is the copy of the caller's dictionary,
  which \<^verbatim>\<open>pop\<close> shrinks, \<open>res\<close> the dictionary \<^verbatim>\<open>result\<close>.
\<close>

fun bind_loop ::
  "bool \<Rightarrow> heap \<Rightarrow> params \<Rightarrow> pydict \<Rightarrow> pydict \<Rightarrow> pyexc + (pydict \<times> pydict)" where
  "bind_loop allow_hidden h [] ov res = Inr (res, ov)"
| "bind_loop allow_hidden h ((n, a) # rest) ov res =
     (if \<not> allow_hidden \<and> hidden (h a) then bind_loop allow_hidden h rest ov res
      else
        (case convert (h a) (case map_of ov n of None \<Rightarrow> VNone | Some v \<Rightarrow> v) of
           Inl e \<Rightarrow> Inl e
         | Inr w \<Rightarrow> bind_loop allow_hidden h rest (AList.delete n ov) (AList.update n w res)))"

definition parse_parameters ::
  "pyclass \<Rightarrow> pydict option \<Rightarrow> bool \<Rightarrow> bool \<Rightarrow> bool \<Rightarrow> heap \<Rightarrow> (pyexc + pydict) \<times> heap" where
  "parse_parameters c parameters check_validity allow_hidden include_deprecated h =
     (let ov = (case parameters of None \<Rightarrow> [] | Some d \<Rightarrow> d)
      in case get_parameters c allow_hidden include_deprecated True h of
           (Inl e, h') \<Rightarrow> (Inl e, h')
         | (Inr param_objs, h') \<Rightarrow>
             (case bind_loop allow_hidden h' param_objs ov [] of
                Inl e \<Rightarrow> (Inl e, h')
              | Inr (res, left) \<Rightarrow>
                  if check_validity \<and> left \<noteq> []
                  then (Inl (UnknownParameters (sort (map fst left)) (class_name c)), h')
                  else (Inr (fold (\<lambda>(k, v). AList.update k v) left res), h')))"

text \<open>
  \<^verbatim>\<open>Parameterized.__init__\<close>: \<open>attr\<close> is the attribute \<^verbatim>\<open>parameters\<close> the instance
  already has, if any; the result is the attribute after the call.
\<close>

definition Parameterized_init ::
  "pyclass \<Rightarrow> pydict option \<Rightarrow> pydict option \<Rightarrow> heap \<Rightarrow> (pyexc + pydict) \<times> heap" where
  "Parameterized_init c attr parameters h =
     (case attr of
        Some d \<Rightarrow> (Inr d, h)
      | None \<Rightarrow> parse_parameters c parameters True True False h)"

section \<open>The registry: Parameterized.__init_subclass__ and get_all_parameters\<close>

text \<open>
  What a class body assigns to \<^verbatim>\<open>parameters_default\<close>: nothing, a list of parameter
  objects and hide directives, or a dictionary from names to default values.
\<close>

datatype class_body = NoDeclaration | ListDeclaration "item list" | DictDeclaration pydict

text \<open>The dictionary \<^verbatim>\<open>Parameterized._subclasses\<close>, in insertion order.\<close>

type_synonym registry = "(string \<times> pyclass) list"

text \<open>Storing new objects at the next free addresses of the store.\<close>

fun allocate :: "Parameter list \<Rightarrow> heap \<Rightarrow> addr \<Rightarrow> item list \<times> heap \<times> addr" where
  "allocate [] h free = ([], h, free)"
| "allocate (p # ps) h free =
     (case allocate ps (h(free := p)) (Suc free) of
        (items, h', free') \<Rightarrow> (Ref free # items, h', free'))"

text \<open>
  \<^verbatim>\<open>__init_subclass__\<close>, run by the class statement that creates the class named \<open>n\<close>
  with the given rest of its \<^verbatim>\<open>__mro__\<close>: a dictionary is replaced by the list of
  \<^verbatim>\<open>Parameter(name, default)\<close> objects, and the class is entered in the registry
  under its name.
\<close>

definition init_subclass ::
  "string \<Rightarrow> class_body \<Rightarrow> pyclass list \<Rightarrow> registry \<Rightarrow> heap \<Rightarrow> addr
     \<Rightarrow> pyclass \<times> registry \<times> heap \<times> addr" where
  "init_subclass n decl ancs reg h free =
     (case decl of
        NoDeclaration \<Rightarrow>
          (PyClass n None ancs, AList.update n (PyClass n None ancs) reg, h, free)
      | ListDeclaration l \<Rightarrow>
          (PyClass n (Some l) ancs, AList.update n (PyClass n (Some l) ancs) reg, h, free)
      | DictDeclaration d \<Rightarrow>
          (case allocate
                  (map (\<lambda>(k, v). \<lparr>name = k, default_value = v, cls = ObjectType,
                                   description = [], hidden = False, deprecated = False\<rparr>) d)
                  h free of
             (items, h', free') \<Rightarrow>
               (PyClass n (Some items) ancs,
                AList.update n (PyClass n (Some items) ancs) reg, h', free')))"

text \<open>What \<^verbatim>\<open>get_all_parameters\<close> stores for one class.\<close>

datatype info = Names "string set" | Values pydict | Descriptions "(string \<times> string) list"

fun all_loop ::
  "string option \<Rightarrow> registry \<Rightarrow> (string \<times> info) list \<Rightarrow> heap
     \<Rightarrow> (pyexc + (string \<times> info) list) \<times> heap" where
  "all_loop data [] result h = (Inr result, h)"
| "all_loop data ((cls_name, c) # rest) result h =
     (case data of
        None \<Rightarrow>
          (case get_parameters c False False True h of
             (Inl e, h') \<Rightarrow> (Inl e, h')
           | (Inr ps, h') \<Rightarrow>
               all_loop data rest (AList.update cls_name (Names (set (map fst ps))) result) h')
      | Some d \<Rightarrow>
          if d = ''value'' then
            (case get_parameters c False False True h of
               (Inl e, h') \<Rightarrow> (Inl e, h')
             | (Inr ps, h') \<Rightarrow>
                 all_loop data rest
                   (AList.update cls_name
                      (Values (map (\<lambda>(k, a). (k, default_value (h' a))) ps)) result) h')
          else if d = ''description'' then
            (case get_parameters c False False True h of
               (Inl e, h') \<Rightarrow> (Inl e, h')
             | (Inr ps, h') \<Rightarrow>
                 all_loop data rest
                   (AList.update cls_name
                      (Descriptions (map (\<lambda>(k, a). (k, description (h' a))) ps)) result) h')
          else (Inl (CannotInterpret d), h))"

definition get_all_parameters ::
  "string option \<Rightarrow> registry \<Rightarrow> heap \<Rightarrow> (pyexc + (string \<times> info) list) \<times> heap" where
  "get_all_parameters data reg h = all_loop data reg [] h"

section \<open>Notions used to state the properties\<close>

text \<open>
  The declared list the resolution reads for one class of the \<^verbatim>\<open>__mro__\<close>, and the
  sequence of all entries the two nested loops of \<^verbatim>\<open>get_parameters\<close> go through,
  from the most general class to the class itself.
\<close>

definition class_items :: "pyclass \<Rightarrow> item list" where
  "class_items k = (case parameters_default k of None \<Rightarrow> [] | Some l \<Rightarrow> l)"

definition declared_items :: "pyclass \<Rightarrow> item list" where
  "declared_items c = concat (map class_items (rev (mro c)))"

text \<open>An entry is about the name \<open>x\<close>: it declares or hides \<open>x\<close>.\<close>

fun about :: "heap \<Rightarrow> string \<Rightarrow> item \<Rightarrow> bool" where
  "about h x (HideParameter n) = (n = x)"
| "about h x (Ref a) = (name (h a) = x)"


text \<open>
  The store \<open>h'\<close> is \<open>h\<close> up to \<open>hidden\<close> flags set to true: every object is as it
  was, or as it was with \<open>hidden\<close> now true.
\<close>

definition marks :: "heap \<Rightarrow> heap \<Rightarrow> bool" where
  "marks h h' = (\<forall>a. h' a = h a \<or> h' a = (h a)\<lparr>hidden := True\<rparr>)"

text \<open>
  Every entry of the mapping \<open>ps\<close> is filed under the name of its descriptor, and the
  descriptor is one of the entries \<open>S\<close>.
\<close>

definition entries_ok :: "heap \<Rightarrow> item set \<Rightarrow> params \<Rightarrow> bool" where
  "entries_ok h S ps = (\<forall>n a. map_of ps n = Some a \<longrightarrow> name (h a) = n \<and> Ref a \<in> S)"

text \<open>
  Every hide directive of the entries \<open>xs\<close> names a key that the mapping holds when the
  directive is read, \<open>K\<close> being the keys before \<open>xs\<close>: a descriptor that the flag
  \<^verbatim>\<open>include_deprecated\<close> does not leave out adds its name, and a hide directive removes its
  name unless \<^verbatim>\<open>include_hidden\<close> is set.
\<close>

fun hides_declared :: "bool \<Rightarrow> bool \<Rightarrow> heap \<Rightarrow> string set \<Rightarrow> item list \<Rightarrow> bool" where
  "hides_declared ih idep h K [] = True"
| "hides_declared ih idep h K (HideParameter n # xs) =
     (n \<in> K \<and> hides_declared ih idep h (if ih then K else K - {n}) xs)"
| "hides_declared ih idep h K (Ref a # xs) =
     hides_declared ih idep h
       (if idep \<or> \<not> deprecated (h a) then insert (name (h a)) K else K) xs"

text \<open>
  The descriptor \<open>a\<close> is filed under the name of a hide directive of the class \<open>c\<close> when a
  resolution with \<^verbatim>\<open>include_hidden\<close> reads that directive: the directive is the entry
  number \<open>i\<close>, and the entries before it resolve to a mapping that holds \<open>a\<close> under its name.
\<close>

definition hide_target :: "bool \<Rightarrow> heap \<Rightarrow> pyclass \<Rightarrow> addr \<Rightarrow> bool" where
  "hide_target idep h c a =
     list_ex (\<lambda>i. case declared_items c ! i of
                   Ref b \<Rightarrow> False
                 | HideParameter n \<Rightarrow>
                     (case fst (for_items True idep (take i (declared_items c)) [] h) of
                        Inl e \<Rightarrow> False
                      | Inr ps \<Rightarrow> map_of ps n = Some a))
       [0..<length (declared_items c)]"


text \<open>
  The names that the loop of \<^verbatim>\<open>_parse_parameters\<close> does not skip: it pops them from the
  caller's dictionary and stores a value for them.
\<close>

definition processed :: "bool \<Rightarrow> heap \<Rightarrow> params \<Rightarrow> string list" where
  "processed allow_hidden h objs =
     map fst (filter (\<lambda>(n, a). allow_hidden \<or> \<not> hidden (h a)) objs)"

section \<open>Example classes\<close>

text \<open>
  \<^verbatim>\<open>class Base(Parameterized):
    parameters_default = [Parameter('size', 10, int), Parameter('label', 'x', str)]
class Derived(Base):
    parameters_default = [Parameter('size', 20, int), HideParameter('label')]
class Legacy(Parameterized):
    parameters_default = [DeprecatedParameter('z', 1, int),
                          Parameter('h', 1, hidden=True)]
class A(Parameterized):
    parameters_default = [Parameter('x', 1)]
class B(A):
    parameters_default = [Parameter('x', 2)]
class C(B):
    pass
class Orphan(Base):
    parameters_default = [HideParameter('ghost')]
class P(Parameterized):
    parameters_default = [Parameter('x', 1), Parameter('y', 5)]
class Q(P):
    parameters_default = [Parameter('x', 2), HideParameter('y')]
class R(Q):
    pass
class S(Q):
    parameters_default = [HideParameter('y')]
class T(P):
    parameters_default = [HideParameter('x'), HideParameter('y')]
class LegacyM(Legacy):
    parameters_default = [HideParameter('h')]
class LegacyN(LegacyM):
    parameters_default = [HideParameter('h')]
class LegacyR(LegacyM):
    pass\<close>
  The parameter objects are stored at the addresses 0 to 9, in the order of the text.
\<close>

definition blank :: Parameter where
  "blank = \<lparr>name = [], default_value = VNone, cls = ObjectType, description = [],
            hidden = False, deprecated = False\<rparr>"

definition Base_size :: Parameter where
  "Base_size = \<lparr>name = ''size'', default_value = VInt 10, cls = int_type, description = [],
                hidden = False, deprecated = False\<rparr>"

definition Base_label :: Parameter where
  "Base_label = \<lparr>name = ''label'', default_value = VStr ''x'', cls = str_type,
                 description = [], hidden = False, deprecated = False\<rparr>"

definition Derived_size :: Parameter where
  "Derived_size = \<lparr>name = ''size'', default_value = VInt 20, cls = int_type,
                   description = [], hidden = False, deprecated = False\<rparr>"

definition Legacy_z :: Parameter where
  "Legacy_z = \<lparr>name = ''z'', default_value = VInt 1, cls = int_type,
               description = [], hidden = False, deprecated = True\<rparr>"

definition Legacy_h :: Parameter where
  "Legacy_h = \<lparr>name = ''h'', default_value = VInt 1, cls = ObjectType,
               description = [], hidden = True, deprecated = False\<rparr>"

definition A_x :: Parameter where
  "A_x = \<lparr>name = ''x'', default_value = VInt 1, cls = ObjectType,
          description = [], hidden = False, deprecated = False\<rparr>"

definition B_x :: Parameter where
  "B_x = \<lparr>name = ''x'', default_value = VInt 2, cls = ObjectType,
          description = [], hidden = False, deprecated = False\<rparr>"

definition P_x :: Parameter where
  "P_x = \<lparr>name = ''x'', default_value = VInt 1, cls = ObjectType,
          description = [], hidden = False, deprecated = False\<rparr>"

definition P_y :: Parameter where
  "P_y = \<lparr>name = ''y'', default_value = VInt 5, cls = ObjectType,
          description = [], hidden = False, deprecated = False\<rparr>"

definition Q_x :: Parameter where
  "Q_x = \<lparr>name = ''x'', default_value = VInt 2, cls = ObjectType,
          description = [], hidden = False, deprecated = False\<rparr>"

definition store0 :: heap where
  "store0 = (\<lambda>a. blank)(0 := Base_size, 1 := Base_label, 2 := Derived_size,
                          3 := Legacy_z, 4 := Legacy_h, 5 := A_x, 6 := B_x,
                          7 := P_x, 8 := P_y, 9 := Q_x)"

definition Base :: pyclass where
  "Base = class_stmt ''Base'' (Some [Ref 0, Ref 1]) Parameterized"

definition Derived :: pyclass where
  "Derived = class_stmt ''Derived'' (Some [Ref 2, HideParameter ''label'']) Base"

definition Legacy :: pyclass where
  "Legacy = class_stmt ''Legacy'' (Some [Ref 3, Ref 4]) Parameterized"

definition ClassA :: pyclass where
  "ClassA = class_stmt ''A'' (Some [Ref 5]) Parameterized"

definition ClassB :: pyclass where
  "ClassB = class_stmt ''B'' (Some [Ref 6]) ClassA"

definition ClassC :: pyclass where
  "ClassC = class_stmt ''C'' None ClassB"

definition Orphan :: pyclass where
  "Orphan = class_stmt ''Orphan'' (Some [HideParameter ''ghost'']) Base"

definition ClassP :: pyclass where
  "ClassP = class_stmt ''P'' (Some [Ref 7, Ref 8]) Parameterized"

definition ClassQ :: pyclass where
  "ClassQ = class_stmt ''Q'' (Some [Ref 9, HideParameter ''y'']) ClassP"

definition ClassR :: pyclass where
  "ClassR = class_stmt ''R'' None ClassQ"

definition ClassS :: pyclass where
  "ClassS = class_stmt ''S'' (Some [HideParameter ''y'']) ClassQ"

definition ClassT :: pyclass where
  "ClassT = class_stmt ''T'' (Some [HideParameter ''x'', HideParameter ''y'']) ClassP"

definition LegacyM :: pyclass where
  "LegacyM = class_stmt ''LegacyM'' (Some [HideParameter ''h'']) Legacy"

definition LegacyN :: pyclass where
  "LegacyN = class_stmt ''LegacyN'' (Some [HideParameter ''h'']) LegacyM"

definition LegacyR :: pyclass where
  "LegacyR = class_stmt ''LegacyR'' None LegacyM"

text \<open>The registry after the class statements of \<open>Base\<close> and \<open>Derived\<close>.\<close>

definition registry0 :: registry where
  "registry0 = [(''Base'', Base), (''Derived'', Derived)]"

section \<open>The example classes, evaluated\<close>

lemma store0_at:
  "store0 0 = Base_size" "store0 (Suc 0) = Base_label" "store0 2 = Derived_size"
  "store0 3 = Legacy_z" "store0 4 = Legacy_h" "store0 5 = A_x" "store0 6 = B_x"
  "store0 7 = P_x" "store0 8 = P_y" "store0 9 = Q_x"
  by (simp_all add: store0_def)

lemmas object_defs =
  Base_size_def Base_label_def Derived_size_def Legacy_z_def Legacy_h_def A_x_def B_x_def
  P_x_def P_y_def Q_x_def blank_def int_type_def str_type_def

lemmas class_defs =
  Base_def Derived_def Legacy_def ClassA_def ClassB_def ClassC_def Orphan_def
  ClassP_def ClassQ_def ClassR_def ClassS_def ClassT_def LegacyM_def LegacyN_def LegacyR_def
  class_stmt_def Parameterized_def object_class_def mro_def parameters_default_def

lemma class_names:
  "class_name Base = ''Base''" "class_name Derived = ''Derived''"
  "class_name Legacy = ''Legacy''"
  by (simp_all add: class_defs)

lemma Base_objects_init:
  "Parameter_init False ''size'' (VInt 10) int_type [] False = Inr (Base_size, [])"
  "Parameter_init False ''label'' (VStr ''x'') str_type [] False = Inr (Base_label, [])"
  "Parameter_init False ''size'' (VInt 20) int_type [] False = Inr (Derived_size, [])"
  "Parameter_init True ''z'' (VInt 1) int_type [] False = Inr (Legacy_z, [])"
  "Parameter_init False ''h'' (VInt 1) ObjectType [] True = Inr (Legacy_h, [])"
  by (simp_all add: Parameter_init_def object_defs)

lemma registry0_init:
  "init_subclass ''Base'' (ListDeclaration [Ref 0, Ref 1]) (mro Parameterized) [] store0 10 =
     (Base, [(''Base'', Base)], store0, 10)"
  "init_subclass ''Derived'' (ListDeclaration [Ref 2, HideParameter ''label'']) (mro Base)
       [(''Base'', Base)] store0 10 = (Derived, registry0, store0, 10)"
  by (simp_all add: init_subclass_def registry0_def Base_def Derived_def class_stmt_def)

lemma declared_items_examples:
  "declared_items Base = [Ref 0, Ref 1]"
  "declared_items Derived = [Ref 0, Ref 1, Ref 2, HideParameter ''label'']"
  "declared_items Legacy = [Ref 3, Ref 4]"
  "declared_items ClassC = [Ref 5, Ref 6, Ref 6]"
  "declared_items Orphan = [Ref 0, Ref 1, HideParameter ''ghost'']"
  "declared_items ClassQ = [Ref 7, Ref 8, Ref 9, HideParameter ''y'']"
  "declared_items ClassR =
     [Ref 7, Ref 8, Ref 9, HideParameter ''y'', Ref 9, HideParameter ''y'']"
  "declared_items ClassS = [Ref 7, Ref 8, Ref 9, HideParameter ''y'', HideParameter ''y'']"
  "declared_items ClassT = [Ref 7, Ref 8, HideParameter ''x'', HideParameter ''y'']"
  "declared_items LegacyM = [Ref 3, Ref 4, HideParameter ''h'']"
  "declared_items LegacyN = [Ref 3, Ref 4, HideParameter ''h'', HideParameter ''h'']"
  "declared_items LegacyR = [Ref 3, Ref 4, HideParameter ''h'', HideParameter ''h'']"
  by (simp_all add: declared_items_def class_items_def class_defs)

section \<open>Properties of the resolution loops\<close>

subsection \<open>The nested loops as one loop over the declared entries\<close>

lemma for_items_append:
  "for_items ih idep (xs @ ys) ps h =
     (case for_items ih idep xs ps h of
        (Inl e, h') \<Rightarrow> (Inl e, h')
      | (Inr ps', h') \<Rightarrow> for_items ih idep ys ps' h')"
  by (induction xs arbitrary: ps h) (auto split: prod.splits sum.splits)

lemma for_classes_items:
  "for_classes ih idep ks ps h = for_items ih idep (concat (map class_items ks)) ps h"
  by (induction ks arbitrary: ps h)
     (auto simp: class_items_def for_items_append split: option.splits prod.splits sum.splits)

lemma get_parameters_items:
  "get_parameters c ih idep s h =
     (case for_items ih idep (declared_items c) [] h of
        (Inl e, h') \<Rightarrow> (Inl e, h')
      | (Inr ps, h') \<Rightarrow> (Inr (if s then sort_key fst ps else ps), h'))"
  by (simp add: get_parameters_def declared_items_def for_classes_items)

subsection \<open>What the loops write\<close>

lemma marks_refl: "marks h h"
  by (simp add: marks_def)

lemma marks_trans:
  assumes "marks h h'" "marks h' h''"
  shows "marks h h''"
  unfolding marks_def
proof
  fix a
  from assms(1) have 1: "h' a = h a \<or> h' a = (h a)\<lparr>hidden := True\<rparr>"
    by (simp add: marks_def)
  from assms(2) have 2: "h'' a = h' a \<or> h'' a = (h' a)\<lparr>hidden := True\<rparr>"
    by (simp add: marks_def)
  from 1 2 show "h'' a = h a \<or> h'' a = (h a)\<lparr>hidden := True\<rparr>"
    by auto
qed

lemma marks_fields:
  assumes "marks h h'"
  shows "name (h' a) = name (h a)" "default_value (h' a) = default_value (h a)"
    "cls (h' a) = cls (h a)" "description (h' a) = description (h a)"
    "deprecated (h' a) = deprecated (h a)" "hidden (h a) \<Longrightarrow> hidden (h' a)"
proof -
  from assms have e: "h' a = h a \<or> h' a = (h a)\<lparr>hidden := True\<rparr>"
    by (simp add: marks_def)
  from e show "name (h' a) = name (h a)" by auto
  from e show "default_value (h' a) = default_value (h a)" by auto
  from e show "cls (h' a) = cls (h a)" by auto
  from e show "description (h' a) = description (h a)" by auto
  from e show "deprecated (h' a) = deprecated (h a)" by auto
  from e show "hidden (h a) \<Longrightarrow> hidden (h' a)" by auto
qed


lemma marks_about: "marks h h' \<Longrightarrow> about h' x p = about h x p"
  by (cases p) (simp_all add: marks_fields)

lemma process_item_marks: "process_item ih idep p ps h = (r, h') \<Longrightarrow> marks h h'"
  by (cases p) (auto simp: marks_def split: if_splits option.splits)

lemma for_items_marks: "for_items ih idep xs ps h = (r, h') \<Longrightarrow> marks h h'"
proof (induction xs arbitrary: ps h)
  case Nil
  then show ?case by (simp add: marks_refl)
next
  case (Cons p xs)
  obtain r1 h1 where p1: "process_item ih idep p ps h = (r1, h1)"
    by (cases "process_item ih idep p ps h")
  show ?case
  proof (cases r1)
    case (Inl e)
    with Cons.prems p1 show ?thesis by (auto dest: process_item_marks)
  next
    case (Inr ps1)
    with Cons.prems p1 have "for_items ih idep xs ps1 h1 = (r, h')" by simp
    then have "marks h1 h'" by (rule Cons.IH)
    with p1 show ?thesis by (blast intro: marks_trans dest: process_item_marks)
  qed
qed

lemma process_item_no_write: "process_item False idep p ps h = (r, h') \<Longrightarrow> h' = h"
  by (cases p) (auto split: if_splits option.splits)

lemma for_items_no_write: "for_items False idep xs ps h = (r, h') \<Longrightarrow> h' = h"
  by (induction xs arbitrary: ps h)
     (auto split: prod.splits sum.splits dest: process_item_no_write)

subsection \<open>One key at a time\<close>



lemma process_item_distinct:
  "process_item ih idep p ps h = (Inr ps', h') \<Longrightarrow> distinct (map fst ps)
     \<Longrightarrow> distinct (map fst ps')"
  by (cases p) (auto simp: distinct_update distinct_delete split: if_splits option.splits)

lemma for_items_distinct:
  "for_items ih idep xs ps h = (Inr ps', h') \<Longrightarrow> distinct (map fst ps)
     \<Longrightarrow> distinct (map fst ps')"
  by (induction xs arbitrary: ps h)
     (auto split: prod.splits sum.splits dest: process_item_distinct)

lemma distinct_sort_key_fst: "distinct (map fst ps) \<Longrightarrow> distinct (map fst (sort_key fst ps))"
  by (metis distinct_map distinct_sort set_sort)

lemma map_of_sort_key: "distinct (map fst ps) \<Longrightarrow> map_of (sort_key fst ps) = map_of ps"
  by (rule map_of_inject_set [THEN iffD2]) (simp_all add: distinct_sort_key_fst)

subsection \<open>How the loop fails\<close>

lemma for_items_fails:
  "for_items ih idep xs ps h = (Inl e, h') \<Longrightarrow>
     \<exists>pre n post ps1. xs = pre @ HideParameter n # post \<and> e = KeyError n
        \<and> for_items ih idep pre ps h = (Inr ps1, h') \<and> map_of ps1 n = None"
proof (induction xs arbitrary: ps h)
  case Nil
  then show ?case by simp
next
  case (Cons p xs)
  obtain r1 h1 where p1: "process_item ih idep p ps h = (r1, h1)"
    by (cases "process_item ih idep p ps h")
  show ?case
  proof (cases r1)
    case (Inl e1)
    with Cons.prems p1 have "e1 = e" "h1 = h'" by auto
    with p1 Inl obtain n where
      "p = HideParameter n" "e = KeyError n" "map_of ps n = None" "h' = h"
      by (cases p) (auto split: if_splits option.splits)
    then have "p # xs = [] @ HideParameter n # xs \<and> e = KeyError n
        \<and> for_items ih idep [] ps h = (Inr ps, h') \<and> map_of ps n = None" by simp
    then show ?thesis by blast
  next
    case (Inr ps1)
    with Cons.prems p1 have "for_items ih idep xs ps1 h1 = (Inl e, h')" by simp
    from Cons.IH [OF this] obtain pre n post ps2 where
      "xs = pre @ HideParameter n # post" "e = KeyError n"
      "for_items ih idep pre ps1 h1 = (Inr ps2, h')" "map_of ps2 n = None" by blast
    with p1 Inr have "p # xs = (p # pre) @ HideParameter n # post \<and> e = KeyError n
        \<and> for_items ih idep (p # pre) ps h = (Inr ps2, h') \<and> map_of ps2 n = None" by simp
    then show ?thesis by blast
  qed
qed

subsection \<open>Class statements\<close>

lemma parameters_default_own [simp]:
  "parameters_default (PyClass n (Some l) ancs) = Some l"
  by (simp add: parameters_default_def mro_def)

lemma parameters_default_inherited [simp]:
  "parameters_default (class_stmt n None base) = parameters_default base"
  by (simp add: parameters_default_def mro_def class_stmt_def)

lemma class_items_own [simp]:
  "class_items (PyClass n (Some l) ancs) = l"
  "class_items (class_stmt n (Some l) base) = l"
  by (simp_all add: class_items_def class_stmt_def)

lemma class_items_inherited [simp]:
  "class_items (class_stmt n None base) = class_items base"
  by (simp add: class_items_def)




subsection \<open>The last entry that acts on a key\<close>



lemma for_items_split:
  assumes "for_items ih idep (pre @ p # post) ps h = (Inr ps', h')"
  obtains ps1 h1 ps2 h2 where
    "for_items ih idep pre ps h = (Inr ps1, h1)"
    "process_item ih idep p ps1 h1 = (Inr ps2, h2)"
    "for_items ih idep post ps2 h2 = (Inr ps', h')"
    "marks h h1" "marks h1 h2" "marks h2 h'"
proof -
  obtain r1 h1 where 1: "for_items ih idep pre ps h = (r1, h1)"
    by (cases "for_items ih idep pre ps h")
  with assms obtain ps1 where r1: "r1 = Inr ps1"
    by (cases r1) (auto simp: for_items_append)
  obtain r2 h2 where 2: "process_item ih idep p ps1 h1 = (r2, h2)"
    by (cases "process_item ih idep p ps1 h1")
  with assms 1 r1 obtain ps2 where r2: "r2 = Inr ps2"
    by (cases r2) (auto simp: for_items_append)
  from assms 1 r1 2 r2 have 3: "for_items ih idep post ps2 h2 = (Inr ps', h')"
    by (simp add: for_items_append)
  from 1 have "marks h h1" by (rule for_items_marks)
  moreover from 2 have "marks h1 h2" by (rule process_item_marks)
  moreover from 3 have "marks h2 h'" by (rule for_items_marks)
  ultimately show ?thesis using that 1 r1 2 r2 3 by blast
qed



lemma get_parameters_result:
  assumes "get_parameters c ih idep s h = (Inr m, h')"
  obtains ps where "for_items ih idep (declared_items c) [] h = (Inr ps, h')"
    "distinct (map fst ps)" "map_of m = map_of ps" "m = (if s then sort_key fst ps else ps)"
proof -
  obtain r h1 where 1: "for_items ih idep (declared_items c) [] h = (r, h1)"
    by (cases "for_items ih idep (declared_items c) [] h")
  with assms obtain ps where r: "r = Inr ps"
    by (cases r) (auto simp: get_parameters_items)
  from assms 1 r have h1: "h1 = h'" and m: "m = (if s then sort_key fst ps else ps)"
    by (auto simp: get_parameters_items)
  from 1 r have d: "distinct (map fst ps)"
    using for_items_distinct [of ih idep "declared_items c" "[]" h ps h1] by simp
  with m have "map_of m = map_of ps" by (simp add: map_of_sort_key)
  with 1 r h1 d m show ?thesis using that by blast
qed

subsection \<open>A resolution without include_hidden writes nothing\<close>

lemma get_parameters_default_store:
  "get_parameters c False idep s h = (r, h') \<Longrightarrow> h' = h"
  by (auto simp: get_parameters_items split: prod.splits sum.splits dest: for_items_no_write)

subsection \<open>The entries of the mapping are declared descriptors\<close>

lemma entries_ok_marks: "marks h h' \<Longrightarrow> entries_ok h S ps \<Longrightarrow> entries_ok h' S ps"
  by (simp add: entries_ok_def marks_fields)

lemma process_item_entries:
  assumes "process_item ih idep p ps h = (Inr ps', h')" "entries_ok h S ps" "p \<in> S"
  shows "entries_ok h' S ps'"
proof -
  from assms(1) have m: "marks h h'" by (rule process_item_marks)
  show ?thesis
  proof (cases p)
    case (Ref a)
    with assms show ?thesis
      by (auto simp: entries_ok_def update_conv' split: if_splits)
  next
    case (HideParameter n)
    with assms(1) have "ps' = ps \<or> ps' = AList.delete n ps"
      by (auto split: if_splits option.splits)
    with assms(2) have "entries_ok h S ps'"
      by (auto simp: entries_ok_def delete_conv' split: if_splits)
    with m show ?thesis by (rule entries_ok_marks)
  qed
qed

lemma for_items_entries:
  "for_items ih idep xs ps h = (Inr ps', h') \<Longrightarrow> entries_ok h S ps \<Longrightarrow> set xs \<subseteq> S
     \<Longrightarrow> entries_ok h' S ps'"
proof (induction xs arbitrary: ps h)
  case Nil
  then show ?case by simp
next
  case (Cons p xs)
  obtain r1 h1 where p1: "process_item ih idep p ps h = (r1, h1)"
    by (cases "process_item ih idep p ps h")
  with Cons.prems(1) obtain ps1 where r1: "r1 = Inr ps1" by (cases r1) auto
  from Cons.prems(1) p1 r1 have rest: "for_items ih idep xs ps1 h1 = (Inr ps', h')" by simp
  from p1 r1 Cons.prems(2,3) have "entries_ok h1 S ps1"
    using process_item_entries [of ih idep p ps h ps1 h1 S] by simp
  with rest Cons.prems(3) show ?case using Cons.IH by simp
qed


subsection \<open>A key that is declared and not hidden is present\<close>



subsection \<open>Without include_deprecated no entry is a deprecated descriptor\<close>




section \<open>Properties of the binding loop\<close>

lemma processed_simps [simp]:
  "processed ah h [] = []"
  "processed ah h ((n, a) # rest) =
     (if ah \<or> \<not> hidden (h a) then n # processed ah h rest else processed ah h rest)"
  by (simp_all add: processed_def)

lemma delete_filter: "AList.delete k ov = filter (\<lambda>(n, v). n \<noteq> k) ov"
  by (induction ov) auto

lemma bind_loop_left:
  "bind_loop ah h objs ov res = Inr (res', left) \<Longrightarrow>
     left = filter (\<lambda>(k, v). k \<notin> set (processed ah h objs)) ov"
proof (induction objs arbitrary: ov res)
  case Nil
  then show ?case by simp
next
  case (Cons na objs)
  obtain n a where na: "na = (n, a)" by (cases na)
  show ?case
  proof (cases "\<not> ah \<and> hidden (h a)")
    case True
    with Cons.prems na have "bind_loop ah h objs ov res = Inr (res', left)" by simp
    from Cons.IH [OF this] True na show ?thesis by simp
  next
    case False
    with Cons.prems na obtain w where
      "bind_loop ah h objs (AList.delete n ov) (AList.update n w res) = Inr (res', left)"
      by (auto split: sum.splits)
    from Cons.IH [OF this] have
      "left = filter (\<lambda>(k, v). k \<notin> set (processed ah h objs)) (AList.delete n ov)" .
    also have "\<dots> = filter (\<lambda>(k, v). k \<notin> set (processed ah h (na # objs))) ov"
      using False na by (auto simp: delete_filter intro!: filter_cong)
    finally show ?thesis .
  qed
qed

lemma bind_loop_result:
  "bind_loop ah h objs ov res = Inr (res', left) \<Longrightarrow> distinct (map fst objs) \<Longrightarrow>
     (\<forall>n. n \<notin> set (processed ah h objs) \<longrightarrow> map_of res' n = map_of res n)
     \<and> (\<forall>n a. (n, a) \<in> set objs \<and> (ah \<or> \<not> hidden (h a)) \<longrightarrow>
           (\<exists>w. convert (h a) (case map_of ov n of None \<Rightarrow> VNone | Some v \<Rightarrow> v) = Inr w
                \<and> map_of res' n = Some w))"
proof (induction objs arbitrary: ov res)
  case Nil
  then show ?case by simp
next
  case (Cons na objs)
  obtain k b where na: "na = (k, b)" by (cases na)
  from Cons.prems(2) na have d: "distinct (map fst objs)" and kn: "k \<notin> fst ` set objs"
    by auto
  have sub: "set (processed ah h objs) \<subseteq> fst ` set objs"
    by (auto simp: processed_def)
  show ?case
  proof (cases "\<not> ah \<and> hidden (h b)")
    case True
    with Cons.prems(1) na have "bind_loop ah h objs ov res = Inr (res', left)" by simp
    from Cons.IH [OF this d] True na show ?thesis by auto
  next
    case False
    with Cons.prems(1) na obtain w where
      w: "convert (h b) (case map_of ov k of None \<Rightarrow> VNone | Some v \<Rightarrow> v) = Inr w"
      and rest: "bind_loop ah h objs (AList.delete k ov) (AList.update k w res) = Inr (res', left)"
      by (auto split: sum.splits)
    from Cons.IH [OF rest d] have
      ih1: "\<forall>n. n \<notin> set (processed ah h objs) \<longrightarrow> map_of res' n = map_of (AList.update k w res) n"
      and ih2: "\<forall>n a. (n, a) \<in> set objs \<and> (ah \<or> \<not> hidden (h a)) \<longrightarrow>
           (\<exists>w. convert (h a) (case map_of (AList.delete k ov) n of None \<Rightarrow> VNone | Some v \<Rightarrow> v) = Inr w
                \<and> map_of res' n = Some w)"
      by auto
    from kn sub have "k \<notin> set (processed ah h objs)" by auto
    with ih1 have here: "map_of res' k = Some w" by (simp add: update_conv')
    have 1: "\<forall>n. n \<notin> set (processed ah h (na # objs)) \<longrightarrow> map_of res' n = map_of res n"
      using ih1 False na by (auto simp: update_conv')
    have 2: "\<exists>w. convert (h a) (case map_of ov n of None \<Rightarrow> VNone | Some v \<Rightarrow> v) = Inr w
                \<and> map_of res' n = Some w"
      if "(n, a) \<in> set (na # objs)" "ah \<or> \<not> hidden (h a)" for n a
    proof (cases "(n, a) = (k, b)")
      case True
      with w here show ?thesis by auto
    next
      case False
      with that na have in_rest: "(n, a) \<in> set objs" by auto
      with kn have "n \<noteq> k" by force
      then have "map_of (AList.delete k ov) n = map_of ov n" by simp
      with ih2 in_rest that(2) show ?thesis by force
    qed
    from 1 2 show ?thesis by blast
  qed
qed

lemma fold_update_other:
  "n \<notin> fst ` set left \<Longrightarrow> map_of (fold (\<lambda>(k, v). AList.update k v) left res) n = map_of res n"
  by (induction left arbitrary: res) (auto simp: update_conv')




subsection \<open>When the loop returns\<close>









lemma hides_declared_refs: "list_all is_Ref xs \<Longrightarrow> hides_declared ih idep h K xs"
proof (induction xs arbitrary: K)
  case Nil
  show ?case by simp
next
  case (Cons p xs)
  then show ?case by (cases p) simp_all
qed


subsection \<open>Which descriptors a resolution with include_hidden writes\<close>

lemma hide_again: "(p\<lparr>hidden := True\<rparr>)\<lparr>hidden := True\<rparr> = p\<lparr>hidden := True\<rparr>"
  by simp

lemma for_items_written:
  "for_items True idep xs ps h = (r, h') \<Longrightarrow>
     h' a = h a \<or>
     (h' a = (h a)\<lparr>hidden := True\<rparr>
      \<and> (\<exists>pre n post ps1 h1. xs = pre @ HideParameter n # post
            \<and> for_items True idep pre ps h = (Inr ps1, h1) \<and> map_of ps1 n = Some a))"
proof (induction xs arbitrary: ps h)
  case Nil
  then show ?case by simp
next
  case (Cons p xs)
  obtain r1 h1 where p1: "process_item True idep p ps h = (r1, h1)"
    by (cases "process_item True idep p ps h")
  show ?case
  proof (cases r1)
    case (Inl e)
    with p1 have "h1 = h" by (cases p) (auto split: if_splits option.splits)
    with Cons.prems p1 Inl show ?thesis by simp
  next
    case (Inr ps1)
    with Cons.prems p1 have rest: "for_items True idep xs ps1 h1 = (r, h')" by simp
    have first: "h1 a = h a \<or>
        (h1 a = (h a)\<lparr>hidden := True\<rparr> \<and> (\<exists>n. p = HideParameter n \<and> map_of ps n = Some a))"
      using p1 Inr by (cases p) (auto split: if_splits option.splits)
    have lift: "\<exists>pre n post ps2 h2. p # xs = pre @ HideParameter n # post
            \<and> for_items True idep pre ps h = (Inr ps2, h2) \<and> map_of ps2 n = Some a"
      if "\<exists>pre n post ps2 h2. xs = pre @ HideParameter n # post
            \<and> for_items True idep pre ps1 h1 = (Inr ps2, h2) \<and> map_of ps2 n = Some a"
    proof -
      from that obtain pre n post ps2 h2 where
        "xs = pre @ HideParameter n # post"
        "for_items True idep pre ps1 h1 = (Inr ps2, h2)" "map_of ps2 n = Some a" by blast
      with p1 Inr have "p # xs = (p # pre) @ HideParameter n # post
            \<and> for_items True idep (p # pre) ps h = (Inr ps2, h2) \<and> map_of ps2 n = Some a"
        by simp
      then show ?thesis by blast
    qed
    have here: "\<exists>pre n post ps2 h2. p # xs = pre @ HideParameter n # post
            \<and> for_items True idep pre ps h = (Inr ps2, h2) \<and> map_of ps2 n = Some a"
      if "\<exists>n. p = HideParameter n \<and> map_of ps n = Some a"
    proof -
      from that obtain n where "p = HideParameter n" "map_of ps n = Some a" by blast
      then have "p # xs = [] @ HideParameter n # xs
            \<and> for_items True idep [] ps h = (Inr ps, h) \<and> map_of ps n = Some a" by simp
      then show ?thesis by blast
    qed
    from Cons.IH [OF rest] have second: "h' a = h1 a \<or>
     (h' a = (h1 a)\<lparr>hidden := True\<rparr>
      \<and> (\<exists>pre n post ps2 h2. xs = pre @ HideParameter n # post
            \<and> for_items True idep pre ps1 h1 = (Inr ps2, h2) \<and> map_of ps2 n = Some a))" .
    from first second lift here show ?thesis
      by (elim disjE conjE) (simp_all only: hide_again, blast+)
  qed
qed

lemma for_items_shown:
  assumes "for_items True idep (pre @ HideParameter n # post) ps h = (r, h')"
    and "for_items True idep pre ps h = (Inr ps1, h1)" and "map_of ps1 n = Some a"
  shows "hidden (h' a)"
proof -
  let ?h2 = "h1(a := (h1 a)\<lparr>hidden := True\<rparr>)"
  from assms have "for_items True idep post ps1 ?h2 = (r, h')"
    by (simp add: for_items_append)
  then have "marks ?h2 h'" by (rule for_items_marks)
  moreover have "hidden (?h2 a)" by simp
  ultimately show ?thesis by (simp add: marks_fields)
qed

subsection \<open>When the binding loop returns\<close>





section \<open>The resolutions of the example classes\<close>

lemma Base_listing:
  "get_parameters Base False False True store0 = (Inr [(''label'', 1), (''size'', 0)], store0)"
  by (simp add: get_parameters_def class_defs store0_at object_defs)

lemma Derived_listing:
  "get_parameters Derived False False True store0 = (Inr [(''size'', 2)], store0)"
  by (simp add: get_parameters_def class_defs store0_at object_defs)

lemma Derived_listing_hidden:
  "get_parameters Derived True False True store0 =
     (Inr [(''label'', 1), (''size'', 2)], store0(1 := Base_label\<lparr>hidden := True\<rparr>))"
  by (simp add: get_parameters_def class_defs store0_at object_defs)

lemmas bind_defs =
  Parameterized_init_def parse_parameters_def convert_def store0_at class_names object_defs

lemma ClassC_listing:
  "get_parameters ClassC False False True store0 = (Inr [(''x'', 6)], store0)"
  by (simp add: get_parameters_items declared_items_examples store0_at object_defs)

lemma Legacy_listing:
  "get_parameters Legacy True False True store0 = (Inr [(''h'', 4)], store0)"
  "get_parameters Legacy False False True store0 = (Inr [(''h'', 4)], store0)"
  "get_parameters Legacy True True True store0 = (Inr [(''h'', 4), (''z'', 3)], store0)"
  by (simp_all add: get_parameters_items declared_items_examples store0_at object_defs)


section \<open>C1: the scenario of Base and Derived\<close>

text \<open>
  C1, as the code has it. \<^verbatim>\<open>Derived.get_parameters()\<close> lists only \<open>size\<close>, governed by
  the descriptor of \<open>Derived\<close> (default 20). \<^verbatim>\<open>__init__\<close> binds with
  \<^verbatim>\<open>allow_hidden=True\<close>, so the hidden parameter stays settable: \<^verbatim>\<open>Derived({'size': 5})\<close>
  gives \<^verbatim>\<open>{'label': 'x', 'size': 5}\<close> and \<^verbatim>\<open>Derived({'label': 'y'})\<close> gives
  \<^verbatim>\<open>{'label': 'y', 'size': 20}\<close>. Only a bind with \<^verbatim>\<open>allow_hidden=False\<close> gives
  \<^verbatim>\<open>{'size': 5}\<close> for the first and rejects the second as an unknown parameter of
  \<open>Derived\<close>.
\<close>

theorem C1_scenario:
  "fst (get_parameters Derived False False True store0) = Inr [(''size'', 2)]
   \<and> default_value (store0 2) = VInt 20
   \<and> fst (Parameterized_init Derived None (Some [(''size'', VInt 5)]) store0) =
       Inr [(''label'', VStr ''x''), (''size'', VInt 5)]
   \<and> fst (Parameterized_init Derived None (Some [(''label'', VStr ''y'')]) store0) =
       Inr [(''label'', VStr ''y''), (''size'', VInt 20)]
   \<and> fst (parse_parameters Derived (Some [(''size'', VInt 5)]) True False False store0) =
       Inr [(''size'', VInt 5)]
   \<and> fst (parse_parameters Derived (Some [(''label'', VStr ''y'')]) True False False store0) =
       Inl (UnknownParameters [''label''] ''Derived'')"
  by (simp add: Derived_listing Derived_listing_hidden bind_defs)

text \<open>
  C1 as stated fails: under the default flags of \<^verbatim>\<open>__init__\<close> the override
  \<^verbatim>\<open>{'label': 'y'}\<close> is accepted, and \<^verbatim>\<open>{'size': 5}\<close> yields a dictionary that also
  holds \<open>label\<close>.
\<close>

theorem C1_counterexample:
  "fst (Parameterized_init Derived None (Some [(''label'', VStr ''y'')]) store0) =
     Inr [(''label'', VStr ''y''), (''size'', VInt 20)]
   \<and> map_of (projr (fst (Parameterized_init Derived None (Some [(''size'', VInt 5)]) store0)))
        ''label'' = Some (VStr ''x'')"
  by (simp add: Derived_listing_hidden bind_defs)

section \<open>C2: the registry query\<close>

lemma init_subclass_registers:
  "init_subclass n decl ancs reg h free = (c, reg', h', free') \<Longrightarrow>
     map_of reg' n = Some c \<and> class_name c = n \<and> ancestors c = ancs
     \<and> (distinct (map fst reg) \<longrightarrow> distinct (map fst reg'))"
  by (cases decl)
     (auto simp: init_subclass_def update_conv' distinct_update split: prod.splits)

lemma all_loop_bad_mode:
  "mode \<noteq> ''value'' \<Longrightarrow> mode \<noteq> ''description'' \<Longrightarrow>
     all_loop (Some mode) reg result h =
       (if reg = [] then (Inr result, h) else (Inl (CannotInterpret mode), h))"
  by (cases reg) auto

lemma all_loop_names_fails:
  "all_loop None reg result h = (Inl e, h') \<Longrightarrow>
     h' = h \<and> (\<exists>n c. (n, c) \<in> set reg \<and> get_parameters c False False True h = (Inl e, h))"
proof (induction reg arbitrary: result)
  case Nil
  then show ?case by simp
next
  case (Cons nc reg)
  obtain n c where nc: "nc = (n, c)" by (cases nc)
  obtain r1 h1 where g: "get_parameters c False False True h = (r1, h1)"
    by (cases "get_parameters c False False True h")
  then have h1: "h1 = h" by (rule get_parameters_default_store)
  show ?case
  proof (cases r1)
    case (Inl e1)
    with Cons.prems nc g h1 show ?thesis by auto
  next
    case (Inr ps)
    with Cons.prems nc g h1
    have "all_loop None reg (AList.update n (Names (set (map fst ps))) result) h = (Inl e, h')"
      by simp
    from Cons.IH [OF this] show ?thesis by auto
  qed
qed

lemma all_loop_names:
  "all_loop None reg result h = (Inr res, h') \<Longrightarrow> distinct (map fst reg) \<Longrightarrow>
     h' = h
     \<and> list_all (\<lambda>(n, c). \<exists>ps. get_parameters c False False True h = (Inr ps, h)
                    \<and> map_of res n = Some (Names (set (map fst ps)))) reg
     \<and> (\<forall>n. n \<notin> set (map fst reg) \<longrightarrow> map_of res n = map_of result n)"
proof (induction reg arbitrary: result)
  case Nil
  then show ?case by simp
next
  case (Cons nc reg)
  obtain n c where nc: "nc = (n, c)" by (cases nc)
  obtain r1 h1 where g: "get_parameters c False False True h = (r1, h1)"
    by (cases "get_parameters c False False True h")
  then have h1: "h1 = h" by (rule get_parameters_default_store)
  from Cons.prems(1) nc g obtain ps where r1: "r1 = Inr ps" by (cases r1) auto
  let ?result = "AList.update n (Names (set (map fst ps))) result"
  from Cons.prems(1) nc g h1 r1
  have rest: "all_loop None reg ?result h = (Inr res, h')" by simp
  from Cons.prems(2) nc have d: "distinct (map fst reg)" and nn: "n \<notin> set (map fst reg)"
    by auto
  from Cons.IH [OF rest d] have
    ih1: "h' = h"
    and ih3: "list_all (\<lambda>(n, c). \<exists>ps. get_parameters c False False True h = (Inr ps, h)
                    \<and> map_of res n = Some (Names (set (map fst ps)))) reg"
    and ih4: "\<forall>n. n \<notin> set (map fst reg) \<longrightarrow> map_of res n = map_of ?result n"
    by auto
  from ih4 nn have here: "map_of res n = Some (Names (set (map fst ps)))"
    by (simp add: update_conv')
  have other: "\<forall>m. m \<notin> set (map fst (nc # reg)) \<longrightarrow> map_of res m = map_of result m"
    using ih4 nc by (auto simp: update_conv')
  from ih1 ih3 here g h1 r1 nc other show ?case by simp
qed

text \<open>
  C2, as the code has it. The names are queried with \<^verbatim>\<open>data=None\<close>; there is no mode
  \<^verbatim>\<open>'names'\<close>. For a registry (a dictionary, so its names are distinct) that query fails
  only if the default listing of a registered class fails, and then with that error;
  otherwise it holds, under the name of every registered class, exactly the set of keys of
  that class's default listing, and nothing under any other name. No descriptor is
  changed. A mode string other than \<^verbatim>\<open>'value'\<close> and \<^verbatim>\<open>'description'\<close> fails with
  \<^verbatim>\<open>Cannot interpret data\<close> as soon as the registry holds a class, and returns the empty
  dictionary for an empty registry.
\<close>

theorem C2_registry:
  assumes "distinct (map fst reg)" and "mode \<noteq> ''value''" and "mode \<noteq> ''description''"
  shows "(case get_all_parameters None reg h of
            (Inl e, h') \<Rightarrow>
              h' = h \<and> (\<exists>n c. (n, c) \<in> set reg \<and> get_parameters c False False True h = (Inl e, h))
          | (Inr res, h') \<Rightarrow>
              h' = h
              \<and> list_all (\<lambda>(n, c). \<exists>ps. get_parameters c False False True h = (Inr ps, h)
                             \<and> map_of res n = Some (Names (set (map fst ps)))) reg
              \<and> (\<forall>n. n \<notin> set (map fst reg) \<longrightarrow> map_of res n = None))
     \<and> get_all_parameters (Some mode) reg h =
         (if reg = [] then (Inr [], h) else (Inl (CannotInterpret mode), h))"
proof -
  obtain r h' where g: "get_all_parameters None reg h = (r, h')"
    by (cases "get_all_parameters None reg h")
  have 1: "case get_all_parameters None reg h of
            (Inl e, h') \<Rightarrow>
              h' = h \<and> (\<exists>n c. (n, c) \<in> set reg \<and> get_parameters c False False True h = (Inl e, h))
          | (Inr res, h') \<Rightarrow>
              h' = h
              \<and> list_all (\<lambda>(n, c). \<exists>ps. get_parameters c False False True h = (Inr ps, h)
                             \<and> map_of res n = Some (Names (set (map fst ps)))) reg
              \<and> (\<forall>n. n \<notin> set (map fst reg) \<longrightarrow> map_of res n = None)"
  proof (cases r)
    case (Inl e)
    with g have "all_loop None reg [] h = (Inl e, h')" by (simp add: get_all_parameters_def)
    from all_loop_names_fails [OF this] g Inl show ?thesis by simp
  next
    case (Inr res)
    with g have "all_loop None reg [] h = (Inr res, h')" by (simp add: get_all_parameters_def)
    from all_loop_names [OF this assms(1)] g Inr show ?thesis by simp
  qed
  from assms(2,3) have 2: "get_all_parameters (Some mode) reg h =
         (if reg = [] then (Inr [], h) else (Inl (CannotInterpret mode), h))"
    by (simp add: get_all_parameters_def all_loop_bad_mode)
  from 1 2 show ?thesis by (rule conjI)
qed

text \<open>The theorem at the registry of \<open>Base\<close> and \<open>Derived\<close> and the mode \<^verbatim>\<open>'names'\<close>.\<close>

theorem C2_witness:
  "get_all_parameters None registry0 store0 =
     (Inr [(''Base'', Names {''label'', ''size''}), (''Derived'', Names {''size''})], store0)
   \<and> get_all_parameters (Some ''names'') registry0 store0 =
     (Inl (CannotInterpret ''names''), store0)"
proof -
  have d: "distinct (map fst registry0)" by (simp add: registry0_def)
  have v: "''names'' \<noteq> ''value''" and e: "''names'' \<noteq> ''description''" by simp_all
  have g: "get_all_parameters None registry0 store0 =
     (Inr [(''Base'', Names {''label'', ''size''}), (''Derived'', Names {''size''})], store0)"
    by (simp add: get_all_parameters_def registry0_def Base_listing Derived_listing insert_commute)
  from C2_registry [OF d v e, of store0] g show ?thesis
    by (simp add: registry0_def)
qed

text \<open>
  C2 as stated fails: with \<open>Base\<close> and \<open>Derived\<close> registered, the query with the mode
  \<^verbatim>\<open>'names'\<close> raises the \<^verbatim>\<open>ValueError\<close> that it cannot interpret \<^verbatim>\<open>names\<close>; on an empty
  registry an unrecognized mode raises nothing and the empty dictionary is returned; and the
  query for the names (\<^verbatim>\<open>data=None\<close>) fails when a registered class, here \<open>Orphan\<close>,
  has no default listing.
\<close>

theorem C2_counterexample:
  "get_all_parameters (Some ''names'') registry0 store0 = (Inl (CannotInterpret ''names''), store0)
   \<and> get_all_parameters (Some ''bogus'') [] store0 = (Inr [], store0)
   \<and> get_all_parameters None [(''Orphan'', Orphan)] store0 = (Inl (KeyError ''ghost''), store0)"
  by (simp add: get_all_parameters_def registry0_def get_parameters_items declared_items_examples
        store0_at object_defs)

section \<open>C3: a redeclaration overrides the ancestors' entry\<close>




section \<open>C4: what a resolution writes\<close>

subsection \<open>Resolving again\<close>

lemma mark_again: "hidden p \<Longrightarrow> p\<lparr>hidden := True\<rparr> = p"
  by (cases p) simp

lemma process_item_again:
  assumes "process_item ih idep p ps h = (r, h')" "marks h' g" 
  shows "process_item ih idep p ps g = (r, g)"
proof -
  from assms(1) have "marks h h'" by (rule process_item_marks)
  from this assms(2) have hg: "marks h g" by (rule marks_trans)
  show ?thesis
  proof (cases p)
    case (Ref a)
    with assms(1) hg show ?thesis by (auto simp: marks_fields split: if_splits)
  next
    case (HideParameter n)
    show ?thesis
    proof (cases "map_of ps n")
      case None
      with assms(1) HideParameter show ?thesis by (auto split: if_splits)
    next
      case (Some a)
      show ?thesis
      proof (cases ih)
        case True
        with assms(1) HideParameter Some have "hidden (h' a)" by auto
        with assms(2) have "hidden (g a)" by (simp add: marks_fields)
        then have "g(a := (g a)\<lparr>hidden := True\<rparr>) = g" by (simp add: mark_again)
        with assms(1) HideParameter Some True show ?thesis by auto
      next
        case False
        with assms(1) HideParameter Some show ?thesis by auto
      qed
    qed
  qed
qed

lemma for_items_again:
  "for_items ih idep xs ps h = (r, h') \<Longrightarrow> marks h' g \<Longrightarrow> for_items ih idep xs ps g = (r, g)"
proof (induction xs arbitrary: ps h)
  case Nil
  then show ?case by auto
next
  case (Cons p xs)
  obtain r1 h1 where p1: "process_item ih idep p ps h = (r1, h1)"
    by (cases "process_item ih idep p ps h")
  show ?case
  proof (cases r1)
    case (Inl e)
    with Cons.prems p1 have "r = Inl e" "h1 = h'" by auto
    with p1 Inl Cons.prems(2) have "process_item ih idep p ps g = (Inl e, g)"
      using process_item_again by blast
    with \<open>r = Inl e\<close> show ?thesis by simp
  next
    case (Inr ps1)
    with Cons.prems(1) p1 have rest: "for_items ih idep xs ps1 h1 = (r, h')" by simp
    then have "marks h1 h'" by (rule for_items_marks)
    with Cons.prems(2) have "marks h1 g" by (blast intro: marks_trans)
    with p1 Inr have "process_item ih idep p ps g = (Inr ps1, g)"
      using process_item_again by blast
    moreover from rest Cons.prems(2) have "for_items ih idep xs ps1 g = (r, g)"
      by (rule Cons.IH)
    ultimately show ?thesis by simp
  qed
qed

lemma marks_update:
  assumes "marks h g"
  shows "marks (h(a := (h a)\<lparr>hidden := True\<rparr>)) (g(a := (g a)\<lparr>hidden := True\<rparr>))"
  unfolding marks_def
proof
  fix b
  from assms have "g b = h b \<or> g b = (h b)\<lparr>hidden := True\<rparr>" by (simp add: marks_def)
  then show "(g(a := (g a)\<lparr>hidden := True\<rparr>)) b = (h(a := (h a)\<lparr>hidden := True\<rparr>)) b \<or>
        (g(a := (g a)\<lparr>hidden := True\<rparr>)) b = ((h(a := (h a)\<lparr>hidden := True\<rparr>)) b)\<lparr>hidden := True\<rparr>"
    by auto
qed

lemma process_item_marked:
  assumes "marks h g"
  shows "fst (process_item ih idep p ps g) = fst (process_item ih idep p ps h)
     \<and> marks (snd (process_item ih idep p ps h)) (snd (process_item ih idep p ps g))"
proof (cases p)
  case (Ref a)
  with assms show ?thesis by (simp add: marks_fields)
next
  case (HideParameter n)
  with assms show ?thesis by (auto simp: marks_update split: option.splits)
qed

lemma for_items_marked:
  "marks h g \<Longrightarrow> fst (for_items ih idep xs ps g) = fst (for_items ih idep xs ps h)"
proof (induction xs arbitrary: ps h g)
  case Nil
  then show ?case by simp
next
  case (Cons p xs)
  obtain r1 h1 where p1: "process_item ih idep p ps h = (r1, h1)"
    by (cases "process_item ih idep p ps h")
  obtain r2 g1 where p2: "process_item ih idep p ps g = (r2, g1)"
    by (cases "process_item ih idep p ps g")
  from process_item_marked [OF Cons.prems, of ih idep p ps] p1 p2
  have r: "r2 = r1" and m: "marks h1 g1" by simp_all
  show ?case
  proof (cases r1)
    case (Inl e)
    with p1 p2 r show ?thesis by simp
  next
    case (Inr ps1)
    with p1 p2 r Cons.IH [OF m, of ps1] show ?thesis by simp
  qed
qed

lemma get_parameters_marked:
  "marks h g \<Longrightarrow> fst (get_parameters c ih idep s g) = fst (get_parameters c ih idep s h)"
proof -
  assume "marks h g"
  then have "fst (for_items ih idep (declared_items c) [] g) =
      fst (for_items ih idep (declared_items c) [] h)" by (rule for_items_marked)
  then show ?thesis
    by (cases "for_items ih idep (declared_items c) [] g";
        cases "for_items ih idep (declared_items c) [] h")
       (auto simp: get_parameters_items split: sum.splits)
qed

lemma get_parameters_marks: "get_parameters c ih idep s h = (r, h') \<Longrightarrow> marks h h'"
  by (auto simp: get_parameters_items split: prod.splits sum.splits dest: for_items_marks)

lemma get_parameters_again:
  assumes "get_parameters c ih idep s h = (r, h')" "marks h' g"
  shows "get_parameters c ih idep s g = (r, g)"
proof -
  obtain r1 h1 where 1: "for_items ih idep (declared_items c) [] h = (r1, h1)"
    by (cases "for_items ih idep (declared_items c) [] h")
  with assms(1) have h1: "h1 = h'"
    by (auto simp: get_parameters_items split: sum.splits)
  with 1 assms(2) have "for_items ih idep (declared_items c) [] g = (r1, g)"
    using for_items_again by blast
  with assms(1) 1 show ?thesis
    by (auto simp: get_parameters_items split: sum.splits)
qed

subsection \<open>The descriptors that a resolution marks\<close>

lemma hide_target_iff:
  "hide_target idep h c a =
     (\<exists>pre n post ps h1. declared_items c = pre @ HideParameter n # post
        \<and> for_items True idep pre [] h = (Inr ps, h1) \<and> map_of ps n = Some a)"
proof
  let ?D = "declared_items c"
  assume "hide_target idep h c a"
  then obtain i where i: "i < length ?D"
    and body: "case ?D ! i of
                   Ref b \<Rightarrow> False
                 | HideParameter n \<Rightarrow>
                     (case fst (for_items True idep (take i ?D) [] h) of
                        Inl e \<Rightarrow> False
                      | Inr ps \<Rightarrow> map_of ps n = Some a)"
    unfolding hide_target_def list_ex_iff by auto
  from body obtain n where n: "?D ! i = HideParameter n"
    and rest: "case fst (for_items True idep (take i ?D) [] h) of
                        Inl e \<Rightarrow> False
                      | Inr ps \<Rightarrow> map_of ps n = Some a"
    by (cases "?D ! i") simp_all
  obtain r h1 where run: "for_items True idep (take i ?D) [] h = (r, h1)"
    by (cases "for_items True idep (take i ?D) [] h")
  with rest obtain ps where "r = Inr ps" "map_of ps n = Some a" by (cases r) simp_all
  moreover from i n have "?D = take i ?D @ HideParameter n # drop (Suc i) ?D"
    using id_take_nth_drop [of i ?D] by simp
  ultimately show "\<exists>pre n post ps h1. ?D = pre @ HideParameter n # post
        \<and> for_items True idep pre [] h = (Inr ps, h1) \<and> map_of ps n = Some a"
    using run by blast
next
  let ?D = "declared_items c"
  assume "\<exists>pre n post ps h1. ?D = pre @ HideParameter n # post
        \<and> for_items True idep pre [] h = (Inr ps, h1) \<and> map_of ps n = Some a"
  then obtain pre n post ps h1 where d: "?D = pre @ HideParameter n # post"
    and run: "for_items True idep pre [] h = (Inr ps, h1)" and a: "map_of ps n = Some a"
    by blast
  from d have "length pre < length ?D" "?D ! length pre = HideParameter n"
    "take (length pre) ?D = pre" by simp_all
  with run a have "length pre \<in> set [0..<length ?D] \<and>
      (case ?D ! length pre of
                   Ref b \<Rightarrow> False
                 | HideParameter n \<Rightarrow>
                     (case fst (for_items True idep (take (length pre) ?D) [] h) of
                        Inl e \<Rightarrow> False
                      | Inr ps \<Rightarrow> map_of ps n = Some a))"
    by simp
  then show "hide_target idep h c a" unfolding hide_target_def list_ex_iff by blast
qed

lemma hide_target_declared:
  assumes "hide_target idep h c a"
  shows "Ref a \<in> set (declared_items c) \<and> HideParameter (name (h a)) \<in> set (declared_items c)"
proof -
  from assms obtain pre n post ps h1 where
    d: "declared_items c = pre @ HideParameter n # post"
    and run: "for_items True idep pre [] h = (Inr ps, h1)" and a: "map_of ps n = Some a"
    unfolding hide_target_iff by blast
  from run have m: "marks h h1" by (rule for_items_marks)
  have "entries_ok h (set pre) []" by (simp add: entries_ok_def)
  with run have "entries_ok h1 (set pre) ps"
    using for_items_entries [of True idep pre "[]" h ps h1 "set pre"] by simp
  with a have "name (h1 a) = n" "Ref a \<in> set pre" by (simp_all add: entries_ok_def)
  with m d show ?thesis by (simp add: marks_fields)
qed

lemma get_parameters_written:
  assumes "get_parameters c True idep s h = (r, h')"
  shows "h' a = (if hide_target idep h c a then (h a)\<lparr>hidden := True\<rparr> else h a)"
proof -
  obtain r1 where run: "for_items True idep (declared_items c) [] h = (r1, h')"
    using assms
    by (cases "for_items True idep (declared_items c) [] h")
       (auto simp: get_parameters_items split: sum.splits)
  from run have m: "marks h h'" by (rule for_items_marks)
  show ?thesis
  proof (cases "hide_target idep h c a")
    case True
    then obtain pre n post ps h1 where
      "declared_items c = pre @ HideParameter n # post"
      "for_items True idep pre [] h = (Inr ps, h1)" "map_of ps n = Some a"
      unfolding hide_target_iff by blast
    with run have hid: "hidden (h' a)" using for_items_shown by metis
    from m have "h' a = h a \<or> h' a = (h a)\<lparr>hidden := True\<rparr>" by (simp add: marks_def)
    then have "h' a = (h a)\<lparr>hidden := True\<rparr>"
    proof
      assume e: "h' a = h a"
      with hid have "hidden (h a)" by simp
      then have "(h a)\<lparr>hidden := True\<rparr> = h a" by (rule mark_again)
      with e show ?thesis by simp
    qed
    with True show ?thesis by simp
  next
    case False
    from for_items_written [OF run, of a] False have "h' a = h a"
      unfolding hide_target_iff by blast
    with False show ?thesis by simp
  qed
qed

lemma get_parameters_hides:
  assumes g: "get_parameters c True idep s h = (Inr m, h')"
    and n: "HideParameter n \<in> set (declared_items c)"
  shows "\<exists>a. hide_target idep h c a \<and> name (h a) = n \<and> hidden (h' a)"
proof -
  from g obtain ps where run: "for_items True idep (declared_items c) [] h = (Inr ps, h')"
    by (rule get_parameters_result)
  from n obtain pre post where d: "declared_items c = pre @ HideParameter n # post"
    by (auto simp: in_set_conv_decomp)
  with run have "for_items True idep (pre @ HideParameter n # post) [] h = (Inr ps, h')" by simp
  then obtain ps1 h1 ps2 h2 where
    1: "for_items True idep pre [] h = (Inr ps1, h1)"
    and 2: "process_item True idep (HideParameter n) ps1 h1 = (Inr ps2, h2)"
    by (rule for_items_split)
  from 2 obtain a where a: "map_of ps1 n = Some a" by (auto split: option.splits)
  with d 1 have t: "hide_target idep h c a" unfolding hide_target_iff by blast
  from 1 have mk: "marks h h1" by (rule for_items_marks)
  have "entries_ok h (set pre) []" by (simp add: entries_ok_def)
  with 1 have "entries_ok h1 (set pre) ps1"
    using for_items_entries [of True idep pre "[]" h ps1 h1 "set pre"] by simp
  with a have "name (h1 a) = n" by (simp add: entries_ok_def)
  with mk have nm: "name (h a) = n" by (simp add: marks_fields)
  from get_parameters_written [OF g, of a] t have "hidden (h' a)" by simp
  with t nm show ?thesis by blast
qed

text \<open>
  C4, as the code has it. A resolution returns no class, so the declared lists stay as they
  are, and in the store it changes nothing but \<open>hidden\<close> flags, which it sets to true.
  Without \<^verbatim>\<open>include_hidden\<close> it leaves the store as it was. With \<^verbatim>\<open>include_hidden\<close> the
  store it leaves is the one it found with \<open>hidden\<close> set to true on exactly the descriptors
  that are filed under the name of a hide directive when the directive is read, and on no
  other object; each of them is a descriptor of the declared lists whose name a hide
  directive of the lists names, and when the resolution returns a mapping, every hide
  directive of the lists has marked such a descriptor of its name. Resolving again with the same arguments, in the store it
  left or in one with further such marks, returns the same result and changes nothing. The
  mapping from names to descriptor objects that any resolution of any class returns is the
  same before and after. What is not the same is the \<open>hidden\<close> flag of the marked
  descriptor objects, which the declaring ancestor shares.
\<close>

theorem C4_resolution_effects:
  assumes "get_parameters c ih idep s h = (r, h')"
  shows "marks h h'
     \<and> (\<not> ih \<longrightarrow> h' = h)
     \<and> (ih \<longrightarrow> (\<forall>a. h' a = (if hide_target idep h c a then (h a)\<lparr>hidden := True\<rparr> else h a)))
     \<and> (\<forall>a. hide_target idep h c a \<longrightarrow>
           Ref a \<in> set (declared_items c) \<and> HideParameter (name (h a)) \<in> set (declared_items c))
     \<and> (\<forall>n. ih \<and> \<not> isl r \<and> HideParameter n \<in> set (declared_items c) \<longrightarrow>
           (\<exists>a. hide_target idep h c a \<and> name (h a) = n \<and> hidden (h' a)))
     \<and> (\<forall>g. marks h' g \<longrightarrow> get_parameters c ih idep s g = (r, g))
     \<and> (\<forall>d ih2 idep2 s2.
           fst (get_parameters d ih2 idep2 s2 h') = fst (get_parameters d ih2 idep2 s2 h))"
proof -
  from assms have m: "marks h h'" by (rule get_parameters_marks)
  moreover from assms have "\<not> ih \<longrightarrow> h' = h"
    by (cases ih) (auto dest: get_parameters_default_store)
  moreover from assms
  have "ih \<longrightarrow> (\<forall>a. h' a = (if hide_target idep h c a then (h a)\<lparr>hidden := True\<rparr> else h a))"
    using get_parameters_written [of c idep s h r h'] by (cases ih) simp_all
  moreover have "\<forall>a. hide_target idep h c a \<longrightarrow>
           Ref a \<in> set (declared_items c) \<and> HideParameter (name (h a)) \<in> set (declared_items c)"
    using hide_target_declared by blast
  moreover have "\<forall>n. ih \<and> \<not> isl r \<and> HideParameter n \<in> set (declared_items c) \<longrightarrow>
           (\<exists>a. hide_target idep h c a \<and> name (h a) = n \<and> hidden (h' a))"
  proof (intro allI impI)
    fix n
    assume a: "ih \<and> \<not> isl r \<and> HideParameter n \<in> set (declared_items c)"
    then obtain m where "r = Inr m" by (cases r) simp_all
    with assms a have "get_parameters c True idep s h = (Inr m, h')" by simp
    with a show "\<exists>a. hide_target idep h c a \<and> name (h a) = n \<and> hidden (h' a)"
      using get_parameters_hides by blast
  qed
  moreover from assms have "\<forall>g. marks h' g \<longrightarrow> get_parameters c ih idep s g = (r, g)"
    using get_parameters_again by blast
  moreover from m have "\<forall>d ih2 idep2 s2.
      fst (get_parameters d ih2 idep2 s2 h') = fst (get_parameters d ih2 idep2 s2 h)"
    using get_parameters_marked by blast
  ultimately show ?thesis by blast
qed

text \<open>
  The theorem at the resolution of \<open>Derived\<close> with \<^verbatim>\<open>include_hidden=True\<close>: it marks the
  descriptor of \<open>label\<close> and neither descriptor of \<open>size\<close>; the later resolutions are
  that of \<open>Derived\<close> again and that of \<open>Base\<close>.
\<close>

theorem C4_witness:
  "hide_target False store0 Derived 1 \<and> \<not> hide_target False store0 Derived 0
   \<and> \<not> hide_target False store0 Derived 2
   \<and> hidden ((store0(1 := Base_label\<lparr>hidden := True\<rparr>)) 1)
   \<and> get_parameters Derived True False True (store0(1 := Base_label\<lparr>hidden := True\<rparr>)) =
       (Inr [(''label'', 1), (''size'', 2)], store0(1 := Base_label\<lparr>hidden := True\<rparr>))
   \<and> fst (get_parameters Base False False True (store0(1 := Base_label\<lparr>hidden := True\<rparr>))) =
       Inr [(''label'', 1), (''size'', 0)]"
proof -
  note t = C4_resolution_effects [OF Derived_listing_hidden]
  from t have w: "(store0(1 := Base_label\<lparr>hidden := True\<rparr>)) a =
      (if hide_target False store0 Derived a then (store0 a)\<lparr>hidden := True\<rparr> else store0 a)" for a
    by simp
  from w [of 1] have 1: "hide_target False store0 Derived 1"
    by (cases "hide_target False store0 Derived 1") (simp_all add: store0_at object_defs)
  from w [of 0] have 0: "\<not> hide_target False store0 Derived 0"
    by (cases "hide_target False store0 Derived 0") (simp_all add: store0_at object_defs)
  from w [of 2] have 2: "\<not> hide_target False store0 Derived 2"
    by (cases "hide_target False store0 Derived 2") (simp_all add: store0_at object_defs)
  from t marks_refl Base_listing 0 1 2 show ?thesis by simp
qed

text \<open>
  C4 as stated fails: resolving \<open>Derived\<close> with \<^verbatim>\<open>include_hidden=True\<close> sets the
  \<open>hidden\<close> field of the descriptor of \<open>label\<close> that \<open>Base\<close> declared, and \<open>Base\<close>
  observes it: a bind of \<open>Base\<close> with \<^verbatim>\<open>allow_hidden=False\<close> holds \<open>label\<close> before that
  resolution and skips it after.
\<close>

theorem C4_counterexample:
  "\<not> hidden (store0 1)
   \<and> hidden (snd (get_parameters Derived True False True store0) 1)
   \<and> fst (parse_parameters Base None True False False store0) =
       Inr [(''label'', VStr ''x''), (''size'', VInt 10)]
   \<and> fst (parse_parameters Base None True False False
            (snd (get_parameters Derived True False True store0))) =
       Inr [(''size'', VInt 10)]"
proof -
  have "get_parameters Base False False True (store0(1 := Base_label\<lparr>hidden := True\<rparr>)) =
       (Inr [(''label'', 1), (''size'', 0)], store0(1 := Base_label\<lparr>hidden := True\<rparr>))"
    by (simp add: get_parameters_items declared_items_examples store0_at object_defs)
  then show ?thesis
    by (simp add: Derived_listing_hidden Base_listing parse_parameters_def convert_def
          store0_at object_defs)
qed

section \<open>C5: Parameter.convert\<close>

text \<open>
  C5, as the code has it. Let \<open>v'\<close> be the value converted: \<open>v\<close>, or the default value
  when \<open>v\<close> is \<^verbatim>\<open>None\<close>. For a descriptor whose type is set, a \<^verbatim>\<open>ValueError\<close> of
  the type converter on \<open>v'\<close> becomes the error that carries \<open>v'\<close>, the name of the type
  and the name of the parameter; an exception of any other class reaches the caller as
  the converter raised it; a value the converter returns is returned. In no case is a
  failure replaced by the default. For the untyped sentinel a value other than
  \<^verbatim>\<open>None\<close> is returned unchanged, and \<^verbatim>\<open>None\<close> gives the default value.
\<close>

theorem C5_convert:
  "(cls p = ClassType n f \<and> f (if v = VNone then default_value p else v) = Inl ValueError \<longrightarrow>
      convert p v = Inl (ConvertError (if v = VNone then default_value p else v) n (name p)))
   \<and> (cls p = ClassType n f \<and> f (if v = VNone then default_value p else v) = Inl (OtherError e) \<longrightarrow>
      convert p v = Inl (Raised (OtherError e)))
   \<and> (cls p = ClassType n f \<and> f (if v = VNone then default_value p else v) = Inr w \<longrightarrow>
      convert p v = Inr w)
   \<and> (cls p = ObjectType \<and> v \<noteq> VNone \<longrightarrow> convert p v = Inr v)
   \<and> (cls p = ObjectType \<and> v = VNone \<longrightarrow> convert p v = Inr (default_value p))"
  by (simp add: convert_def)

text \<open>
  The theorem at \<^verbatim>\<open>Parameter('size', 10, int)\<close> with the values \<^verbatim>\<open>'abc'\<close>,
  \<^verbatim>\<open>[1, 2]\<close> and \<^verbatim>\<open>'7'\<close>, and at the untyped \<^verbatim>\<open>Parameter('x', 1)\<close>.
\<close>

theorem C5_witness:
  "convert Base_size (VStr ''abc'') = Inl (ConvertError (VStr ''abc'') ''int'' ''size'')
   \<and> convert Base_size (VList [1, 2]) = Inl (Raised (OtherError ''TypeError''))
   \<and> convert Base_size (VStr ''7'') = Inr (VInt 7)
   \<and> convert A_x (VStr ''q'') = Inr (VStr ''q'')
   \<and> convert A_x VNone = Inr (VInt 1)"
  using C5_convert [of Base_size "''int''" py_int "VStr ''abc''" "''TypeError''" "VInt 7"]
    C5_convert [of Base_size "''int''" py_int "VList [1, 2]" "''TypeError''" "VInt 7"]
    C5_convert [of Base_size "''int''" py_int "VStr ''7''" "''TypeError''" "VInt 7"]
    C5_convert [of A_x "''int''" py_int "VStr ''q''" "''TypeError''" "VInt 7"]
    C5_convert [of A_x "''int''" py_int "VNone" "''TypeError''" "VInt 7"]
  by (simp add: object_defs int_literal_def is_space_def is_digit_def digit_val_def)

text \<open>
  C5 as stated fails: \<^verbatim>\<open>int([1, 2])\<close> fails with a \<^verbatim>\<open>TypeError\<close>, which
  \<^verbatim>\<open>convert\<close> does not catch, so the caller gets an error that does not name the
  parameter; and an untyped descriptor turns the value \<^verbatim>\<open>None\<close> into its default.
\<close>

theorem C5_counterexample:
  "convert Base_size (VList [1, 2]) = Inl (Raised (OtherError ''TypeError''))
   \<and> convert A_x VNone = Inr (VInt 1)"
  by (simp add: convert_def object_defs)

section \<open>C6: Parameter.__init__\<close>

text \<open>
  C6, as the code has it. The constructor completes when the type is the untyped sentinel,
  logging nothing, and when the type's converter returns a value on the default, logging
  the warning exactly when that value differs from the default. When the converter raises
  on the default, nothing catches the exception and the construction fails with it.
\<close>

theorem C6_init:
  "(c = ObjectType \<longrightarrow>
      Parameter_init dep nm dv c descr hid =
        Inr (\<lparr>name = nm, default_value = dv, cls = c, description = descr, hidden = hid,
               deprecated = dep\<rparr>, []))
   \<and> (c = ClassType n f \<and> f dv = Inr w \<longrightarrow>
      Parameter_init dep nm dv c descr hid =
        Inr (\<lparr>name = nm, default_value = dv, cls = c, description = descr, hidden = hid,
               deprecated = dep\<rparr>, if w \<noteq> dv then [DefaultTypeWarning nm n] else []))
   \<and> (c = ClassType n f \<and> f dv = Inl e \<longrightarrow> Parameter_init dep nm dv c descr hid = Inl e)"
  by (simp add: Parameter_init_def)

text \<open>
  The theorem at \<^verbatim>\<open>Parameter('n', 5)\<close>, \<^verbatim>\<open>Parameter('n', 5, str)\<close>,
  \<^verbatim>\<open>Parameter('n', 5, int)\<close> and \<^verbatim>\<open>Parameter('n', 'abc', int)\<close>.
\<close>

theorem C6_witness:
  "Parameter_init False ''n'' (VInt 5) ObjectType [] False =
     Inr (\<lparr>name = ''n'', default_value = VInt 5, cls = ObjectType, description = [],
            hidden = False, deprecated = False\<rparr>, [])
   \<and> Parameter_init False ''n'' (VInt 5) str_type [] False =
     Inr (\<lparr>name = ''n'', default_value = VInt 5, cls = str_type, description = [],
            hidden = False, deprecated = False\<rparr>, [DefaultTypeWarning ''n'' ''str''])
   \<and> Parameter_init False ''n'' (VInt 5) int_type [] False =
     Inr (\<lparr>name = ''n'', default_value = VInt 5, cls = int_type, description = [],
            hidden = False, deprecated = False\<rparr>, [])
   \<and> Parameter_init False ''n'' (VStr ''abc'') int_type [] False = Inl ValueError"
  using C6_init [of ObjectType False "''n''" "VInt 5" "[]" False "''str''" py_str "VStr ''5''" ValueError]
    C6_init [of str_type False "''n''" "VInt 5" "[]" False "''str''" py_str "VStr ''5''" ValueError]
    C6_init [of int_type False "''n''" "VInt 5" "[]" False "''int''" py_int "VInt 5" ValueError]
    C6_init [of int_type False "''n''" "VStr ''abc''" "[]" False "''int''" py_int "VInt 5" ValueError]
  by (simp add: int_type_def str_type_def show_int_def dec.simps int_literal_def
        is_space_def is_digit_def)

text \<open>
  C6 as stated fails: \<^verbatim>\<open>Parameter('n', 'abc', int)\<close> evaluates \<^verbatim>\<open>int('abc')\<close> in the
  constructor and fails with its \<^verbatim>\<open>ValueError\<close>.
\<close>

theorem C6_counterexample:
  "Parameter_init False ''n'' (VStr ''abc'') int_type [] False = Inl ValueError"
  by (simp add: Parameter_init_def int_type_def int_literal_def is_space_def is_digit_def)

section \<open>C7: hide directives\<close>




section \<open>C8: hiding a name that is not in the mapping\<close>

lemma process_item_absent:
  "process_item ih idep p ps h = (Inr ps', h') \<Longrightarrow> map_of ps n = None
     \<Longrightarrow> \<not> (is_Ref p \<and> about h n p) \<Longrightarrow> map_of ps' n = None"
  by (cases p) (auto simp: update_conv' delete_conv' split: if_splits option.splits)

lemma for_items_absent:
  "for_items ih idep xs ps h = (Inr ps', h') \<Longrightarrow> map_of ps n = None
     \<Longrightarrow> list_all (\<lambda>p. \<not> (is_Ref p \<and> about h n p)) xs \<Longrightarrow> map_of ps' n = None"
proof (induction xs arbitrary: ps h)
  case Nil
  then show ?case by simp
next
  case (Cons p xs)
  obtain r1 h1 where p1: "process_item ih idep p ps h = (r1, h1)"
    by (cases "process_item ih idep p ps h")
  with Cons.prems(1) obtain ps1 where r1: "r1 = Inr ps1" by (cases r1) auto
  from p1 have m: "marks h h1" by (rule process_item_marks)
  from Cons.prems(1) p1 r1 have rest: "for_items ih idep xs ps1 h1 = (Inr ps', h')" by simp
  from p1 r1 Cons.prems(2,3) have "map_of ps1 n = None"
    by (auto dest: process_item_absent)
  moreover from Cons.prems(3) m have "list_all (\<lambda>p. \<not> (is_Ref p \<and> about h1 n p)) xs"
    by (simp add: marks_about)
  ultimately show ?case using rest Cons.IH by blast
qed

text \<open>
  C8. A hide directive for a name \<open>n\<close> that the accumulated mapping does not hold raises
  \<^verbatim>\<open>KeyError\<close>, in the branch that marks (\<^verbatim>\<open>include_hidden\<close>) and in the branch that
  deletes, and a resolution that reaches the directive with such a mapping fails with that
  error. For a class whose entries reach a hide directive for \<open>n\<close> before any descriptor
  named \<open>n\<close>, the resolution fails under all flags: with \<^verbatim>\<open>KeyError\<close> for \<open>n\<close> when the
  entries before the directive go through, and with their \<^verbatim>\<open>KeyError\<close> otherwise.
\<close>

theorem C8_hide_undeclared:
  assumes "declared_items c = pre @ HideParameter n # post"
    and "list_all (\<lambda>p. \<not> (is_Ref p \<and> about h n p)) pre"
  shows "(\<forall>ps. map_of ps n = None \<longrightarrow>
            process_item True idep (HideParameter n) ps h = (Inl (KeyError n), h)
          \<and> process_item False idep (HideParameter n) ps h = (Inl (KeyError n), h))
     \<and> (\<forall>ps h1. for_items ih idep pre [] h = (Inr ps, h1) \<and> map_of ps n = None \<longrightarrow>
            get_parameters c ih idep s h = (Inl (KeyError n), h1))
     \<and> (case for_items ih idep pre [] h of
          (Inl e, h1) \<Rightarrow> get_parameters c ih idep s h = (Inl e, h1)
        | (Inr ps, h1) \<Rightarrow> get_parameters c ih idep s h = (Inl (KeyError n), h1))
     \<and> (\<exists>k h1. get_parameters c ih idep s h = (Inl (KeyError k), h1))"
proof -
  have b: "\<forall>ps h1. for_items ih idep pre [] h = (Inr ps, h1) \<and> map_of ps n = None \<longrightarrow>
            get_parameters c ih idep s h = (Inl (KeyError n), h1)"
    using assms(1) by (simp add: get_parameters_items for_items_append)
  have a: "\<forall>ps. map_of ps n = None \<longrightarrow>
            process_item True idep (HideParameter n) ps h = (Inl (KeyError n), h)
          \<and> process_item False idep (HideParameter n) ps h = (Inl (KeyError n), h)"
    by simp
  obtain r1 h1 where pre: "for_items ih idep pre [] h = (r1, h1)"
    by (cases "for_items ih idep pre [] h")
  show ?thesis
  proof (cases r1)
    case (Inl e)
    with pre assms(1) have g: "get_parameters c ih idep s h = (Inl e, h1)"
      by (simp add: get_parameters_items for_items_append)
    from for_items_fails pre Inl obtain k where "e = KeyError k" by blast
    with a b g pre Inl show ?thesis by simp
  next
    case (Inr ps)
    with pre assms(2) have "map_of ps n = None"
      using for_items_absent [of ih idep pre "[]" h ps h1 n] by simp
    with pre Inr assms(1) have g: "get_parameters c ih idep s h = (Inl (KeyError n), h1)"
      by (simp add: get_parameters_items for_items_append)
    with a b pre Inr show ?thesis by simp
  qed
qed

text \<open>
  The theorem at the class \<open>Orphan\<close>, a subclass of \<open>Base\<close> that hides a name that no class
  declares.
\<close>

theorem C8_witness:
  "get_parameters Orphan False False True store0 = (Inl (KeyError ''ghost''), store0)
   \<and> get_parameters Orphan True False True store0 = (Inl (KeyError ''ghost''), store0)"
proof -
  have items: "declared_items Orphan = [Ref 0, Ref 1] @ HideParameter ''ghost'' # []"
    by (simp add: declared_items_examples)
  have undeclared: "list_all (\<lambda>p. \<not> (is_Ref p \<and> about store0 ''ghost'' p)) [Ref 0, Ref 1]"
    by (simp add: store0_at object_defs)
  from C8_hide_undeclared [OF items undeclared, of False False True]
    C8_hide_undeclared [OF items undeclared, of False True True]
  show ?thesis by (simp add: store0_at object_defs)
qed

section \<open>C9: deprecated parameters\<close>




section \<open>C10: an override that is None\<close>

lemma bind_loop_none:
  "map_of ov n = Some VNone \<Longrightarrow> n \<in> set (processed ah h objs) \<Longrightarrow>
     bind_loop ah h objs ov res = bind_loop ah h objs (AList.delete n ov) res"
proof (induction objs arbitrary: ov res)
  case Nil
  then show ?case by simp
next
  case (Cons kb objs)
  obtain k b where kb: "kb = (k, b)" by (cases kb)
  show ?case
  proof (cases "\<not> ah \<and> hidden (h b)")
    case True
    with Cons.prems(2) kb have "n \<in> set (processed ah h objs)" by simp
    with Cons.prems(1) True kb show ?thesis using Cons.IH by simp
  next
    case False
    then have c: "(\<not> ah \<and> hidden (h b)) = False" by simp
    show ?thesis
    proof (cases "k = n")
      case True
      have "map_of (AList.delete n ov) n = None" by (simp add: delete_conv')
      with Cons.prems(1) True kb show ?thesis
        by (simp only: bind_loop.simps c if_False delete_idem option.case)
    next
      case neq: False
      with Cons.prems(2) c kb have n: "n \<in> set (processed ah h objs)" by auto
      from neq Cons.prems(1) have m: "map_of (AList.delete k ov) n = Some VNone" by simp
      from neq have l: "map_of (AList.delete n ov) k = map_of ov k" by simp
      have "bind_loop ah h objs (AList.delete k ov) r =
            bind_loop ah h objs (AList.delete k (AList.delete n ov)) r" for r
        using Cons.IH [OF m n, of r] by (simp add: delete_twist)
      with kb l show ?thesis
        by (simp only: bind_loop.simps c if_False)
    qed
  qed
qed

lemma convert_None: "convert p VNone = convert p (default_value p)"
  by (simp add: convert_def)

text \<open>
  C10, as the code has it. Let the resolution of the bind list the name \<open>n\<close> with the
  descriptor \<open>a\<close>, and let the loop not skip it (\<^verbatim>\<open>allow_hidden\<close> is set, or the descriptor
  is not hidden). Then a bind whose overrides hold \<^verbatim>\<open>None\<close> for \<open>n\<close> gives the same
  result, values or error, and the same store as the bind without that key; and the values
  it returns hold for \<open>n\<close> the converted default of \<open>a\<close>.
\<close>

theorem C10_none_override:
  assumes ov: "map_of ov n = Some VNone"
    and g: "get_parameters c ah idep True h = (Inr objs, h')"
    and a: "map_of objs n = Some a"
    and vis: "ah \<or> \<not> hidden (h' a)"
  shows "parse_parameters c (Some ov) cv ah idep h =
           parse_parameters c (Some (AList.delete n ov)) cv ah idep h
     \<and> (\<forall>res. fst (parse_parameters c (Some ov) cv ah idep h) = Inr res \<longrightarrow>
           (\<exists>w. convert (h' a) (default_value (h' a)) = Inr w \<and> map_of res n = Some w))"
proof -
  from a have mem: "(n, a) \<in> set objs" by (rule map_of_SomeD)
  with vis have p: "n \<in> set (processed ah h' objs)" by (force simp: processed_def)
  from bind_loop_none [OF ov p] g
  have 1: "parse_parameters c (Some ov) cv ah idep h =
           parse_parameters c (Some (AList.delete n ov)) cv ah idep h"
    by (simp add: parse_parameters_def)
  have 2: "\<exists>w. convert (h' a) (default_value (h' a)) = Inr w \<and> map_of res n = Some w"
    if run: "fst (parse_parameters c (Some ov) cv ah idep h) = Inr res" for res
  proof -
    from g obtain ps where "distinct (map fst ps)" "objs = (if True then sort_key fst ps else ps)"
      by (rule get_parameters_result)
    then have d: "distinct (map fst objs)" by (simp add: distinct_sort_key_fst)
    from run g obtain res1 left where
      b: "bind_loop ah h' objs ov [] = Inr (res1, left)"
      and res: "res = fold (\<lambda>(k, v). AList.update k v) left res1"
      by (cases "bind_loop ah h' objs ov []")
         (auto simp: parse_parameters_def split: if_splits)
    from bind_loop_result [OF b d] mem vis ov obtain w where
      w: "convert (h' a) VNone = Inr w" "map_of res1 n = Some w" by force
    from p bind_loop_left [OF b] have "n \<notin> fst ` set left" by auto
    with res w(2) have "map_of res n = Some w" by (simp add: fold_update_other)
    with w(1) show ?thesis by (simp add: convert_None)
  qed
  from 1 2 show ?thesis by blast
qed

text \<open>
  The theorem at \<open>Derived\<close>, the default flags and the overrides
  \<^verbatim>\<open>{'label': None, 'size': 5}\<close>.
\<close>

theorem C10_witness:
  "parse_parameters Derived (Some [(''label'', VNone), (''size'', VInt 5)]) True True False store0 =
     parse_parameters Derived (Some [(''size'', VInt 5)]) True True False store0
   \<and> fst (parse_parameters Derived (Some [(''label'', VNone), (''size'', VInt 5)]) True True False
          store0) = Inr [(''label'', VStr ''x''), (''size'', VInt 5)]"
proof -
  have ov: "map_of [(''label'', VNone), (''size'', VInt 5)] ''label'' = Some VNone" by simp
  have a: "map_of [(''label'', 1::nat), (''size'', 2)] ''label'' = Some 1" by simp
  have vis: "True \<or> \<not> hidden ((store0(1 := Base_label\<lparr>hidden := True\<rparr>)) 1)" by simp
  have r: "fst (parse_parameters Derived (Some [(''label'', VNone), (''size'', VInt 5)])
      True True False store0) = Inr [(''label'', VStr ''x''), (''size'', VInt 5)]"
    by (simp add: Derived_listing_hidden bind_defs)
  from C10_none_override [OF ov Derived_listing_hidden a vis, of True] r
  show ?thesis by simp
qed

text \<open>
  C10 as stated fails for declared parameters that the bind leaves out. The class \<open>Legacy\<close>
  declares \<open>h\<close> with \<^verbatim>\<open>hidden=True\<close>: a bind with \<^verbatim>\<open>allow_hidden=False\<close> and without
  validity checking stores \<^verbatim>\<open>None\<close> for \<open>h\<close>, while the bind without the key stores
  nothing. It also declares the deprecated parameter \<open>z\<close>: under the default flags
  \<^verbatim>\<open>{'z': None}\<close> is rejected as unknown, while the bind without the key returns values.
\<close>

theorem C10_counterexample:
  "parse_parameters Legacy (Some [(''h'', VNone)]) False False False store0 =
     (Inr [(''h'', VNone)], store0)
   \<and> parse_parameters Legacy (Some []) False False False store0 = (Inr [], store0)
   \<and> parse_parameters Legacy (Some [(''z'', VNone)]) True True False store0 =
     (Inl (UnknownParameters [''z''] ''Legacy''), store0)
   \<and> parse_parameters Legacy (Some []) True True False store0 = (Inr [(''h'', VInt 1)], store0)"
  by (simp add: Legacy_listing parse_parameters_def convert_def store0_at object_defs class_names)


end
